theory Spec2Isabelle
  imports Main
begin

section \<open>Instants, durations and times of day\<close>

text \<open>
  A timezone-aware UTC \<^verbatim>\<open>datetime\<close> is the number of microseconds since
  1970-01-01T00:00:00Z, a \<^verbatim>\<open>timedelta\<close> a number of microseconds. Both types have
  a range in Python, and arithmetic that leaves it raises OverflowError: see
  \<open>mk_timedelta\<close> and \<open>datetime_add\<close> below.
\<close>

type_synonym instant = int
type_synonym timedelta = int

definition SECOND :: timedelta where "SECOND = 1000000"
definition MINUTE :: timedelta where "MINUTE = 60000000"
definition HOUR :: timedelta where "HOUR = 3600000000"
definition DAY :: timedelta where "DAY = 86400000000"
definition WEEK :: timedelta where "WEEK = 604800000000"

text \<open>\<^verbatim>\<open>datetime.time\<close>: hour, minute, second, microsecond.\<close>

record py_time =
  hour :: int
  minute :: int
  second :: int
  microsecond :: int

text \<open>Python compares two times as the tuples of their four fields.\<close>

definition time_less :: "py_time \<Rightarrow> py_time \<Rightarrow> bool" where
  "time_less a b =
     (hour a < hour b \<or> (hour a = hour b \<and>
       (minute a < minute b \<or> (minute a = minute b \<and>
         (second a < second b \<or> (second a = second b \<and> microsecond a < microsecond b))))))"

text \<open>\<^verbatim>\<open>datetime.weekday()\<close>: Monday is 0; 1970-01-01 was a Thursday.\<close>

definition weekday :: "instant \<Rightarrow> int" where
  "weekday t = (t div DAY + 3) mod 7"

definition date_start :: "instant \<Rightarrow> instant" where
  "date_start t = t - t mod DAY"

definition hour_of :: "instant \<Rightarrow> int" where
  "hour_of t = (t mod DAY) div HOUR"

definition minute_of :: "instant \<Rightarrow> int" where
  "minute_of t = (t mod HOUR) div MINUTE"

definition second_of :: "instant \<Rightarrow> int" where
  "second_of t = (t mod MINUTE) div SECOND"

definition microsecond_of :: "instant \<Rightarrow> int" where
  "microsecond_of t = t mod SECOND"

text \<open>\<^verbatim>\<open>datetime.time()\<close>: the time of day of an instant.\<close>

definition time_of :: "instant \<Rightarrow> py_time" where
  "time_of t = \<lparr>hour = hour_of t, minute = minute_of t, second = second_of t,
                microsecond = microsecond_of t\<rparr>"

text \<open>\<^verbatim>\<open>timedelta.days\<close> of a normalised duration (floor division).\<close>

definition days_of :: "timedelta \<Rightarrow> int" where
  "days_of d = d div DAY"

text \<open>
  \<^verbatim>\<open>datetime.replace(hour=, minute=, second=, microsecond=)\<close>: a field given as
  \<open>None\<close> keeps its value; an out-of-range field raises ValueError (\<open>None\<close> here).
\<close>

definition replace :: "instant \<Rightarrow> int option \<Rightarrow> int option \<Rightarrow> int option \<Rightarrow> int option
    \<Rightarrow> instant option" where
  "replace t h m s us =
     (let h' = (case h of None \<Rightarrow> hour_of t | Some x \<Rightarrow> x);
          m' = (case m of None \<Rightarrow> minute_of t | Some x \<Rightarrow> x);
          s' = (case s of None \<Rightarrow> second_of t | Some x \<Rightarrow> x);
          us' = (case us of None \<Rightarrow> microsecond_of t | Some x \<Rightarrow> x)
      in if 0 \<le> h' \<and> h' \<le> 23 \<and> 0 \<le> m' \<and> m' \<le> 59 \<and> 0 \<le> s' \<and> s' \<le> 59
            \<and> 0 \<le> us' \<and> us' \<le> 999999
         then Some (date_start t + h' * HOUR + m' * MINUTE + s' * SECOND + us')
         else None)"

section \<open>Exceptions\<close>

datatype exn = ScheduleError | ScheduleValueError | IntervalError
  | TypeError | ValueError | NameError | AttributeError | AssertionError | OverflowError

text \<open>
  \<^verbatim>\<open>isinstance(e, cls)\<close> on the exception classes: IntervalError derives from
  ScheduleValueError, which derives from ScheduleError.
\<close>

fun exn_isinstance :: "exn \<Rightarrow> exn \<Rightarrow> bool" where
  "exn_isinstance IntervalError ScheduleValueError = True"
| "exn_isinstance IntervalError ScheduleError = True"
| "exn_isinstance ScheduleValueError ScheduleError = True"
| "exn_isinstance e c = (e = c)"

section \<open>The ranges of durations and instants\<close>

text \<open>
  A \<^verbatim>\<open>timedelta\<close> has between -999999999 and 999999999 whole days; building one
  outside that raises OverflowError.
\<close>

definition mk_timedelta :: "int \<Rightarrow> exn + timedelta" where
  "mk_timedelta v =
     (if - 999999999 \<le> v div DAY \<and> v div DAY \<le> 999999999 then Inr v else Inl OverflowError)"

text \<open>
  A \<^verbatim>\<open>datetime\<close> lies between 0001-01-01T00:00:00 and 9999-12-31T23:59:59.999999,
  which are 719162 days before and 2932897 days (less a microsecond) after
  1970-01-01.
\<close>

definition DATETIME_MIN :: instant where "DATETIME_MIN = - 719162 * DAY"
definition DATETIME_MAX :: instant where "DATETIME_MAX = 2932897 * DAY - 1"

text \<open>
  \<^verbatim>\<open>datetime + timedelta\<close>, and \<^verbatim>\<open>datetime - timedelta\<close> with the duration negated:
  OverflowError when the result is out of range.
\<close>

definition datetime_add :: "instant \<Rightarrow> timedelta \<Rightarrow> exn + instant" where
  "datetime_add t d =
     (if DATETIME_MIN \<le> t + d \<and> t + d \<le> DATETIME_MAX then Inr (t + d) else Inl OverflowError)"

section \<open>The environment: clock and random source\<close>

text \<open>
  Each call of \<^verbatim>\<open>datetime.datetime.now(tz=timezone.utc)\<close> is one reading of the
  clock; \<open>clock e k\<close> is the k-th reading still to come. Each call of
  \<^verbatim>\<open>random.randint\<close> consumes one value of \<open>entropy\<close>.
\<close>

record env =
  clock :: "nat \<Rightarrow> instant"
  entropy :: "nat \<Rightarrow> nat"

definition now :: "env \<Rightarrow> instant \<times> env" where
  "now e = (clock e 0, e\<lparr>clock := (\<lambda>k. clock e (Suc k))\<rparr>)"

text \<open>
  \<^verbatim>\<open>random.randint(a, b)\<close>, called with \<open>a \<le> b\<close> only: some integer N with
  \<open>a \<le> N \<le> b\<close>, every one of them reachable.
\<close>

definition randint :: "int \<Rightarrow> int \<Rightarrow> env \<Rightarrow> int \<times> env" where
  "randint a b e =
     (a + int (entropy e 0 mod nat (b - a + 1)), e\<lparr>entropy := (\<lambda>k. entropy e (Suc k))\<rparr>)"

section \<open>Jobs\<close>

text \<open>
  The Python values that matter here: the class \<^verbatim>\<open>CancelJob\<close> itself, an instance of
  it, and other values a job function may take or produce.
\<close>

datatype pyval = CancelJobClass | CancelJobInstance | NoneValue | IntValue int | StrValue string

text \<open>
  The attributes of \<^verbatim>\<open>Job\<close>. \<open>has_scheduler\<close> says whether \<^verbatim>\<open>self.scheduler\<close> is
  a scheduler or \<^verbatim>\<open>None\<close>. \<^verbatim>\<open>job_func\<close> and \<^verbatim>\<open>at_time_zone\<close> are never read and
  are left out.
\<close>

record job =
  interval :: int
  latest :: "int option"
  args :: "pyval list option"
  kwargs :: "(string \<times> pyval) list option"
  job_func_name :: "string option"
  unit :: "string option"
  at_time :: "py_time option"
  last_run :: "instant option"
  next_run :: "instant option"
  period :: "timedelta option"
  start_day :: "string option"
  cancel_after :: "instant option"
  has_scheduler :: bool

section \<open>Next-run computation\<close>

text \<open>
  A method that mutates the job and may raise returns the exception, if any, together
  with the job and the environment as they are at that point: what was assigned before
  a raise stays assigned.
\<close>

type_synonym outcome = "exn option \<times> job \<times> env"

definition and_then :: "outcome \<Rightarrow> (job \<Rightarrow> env \<Rightarrow> outcome) \<Rightarrow> outcome" where
  "and_then r f = (case r of (Some x, j, e) \<Rightarrow> (Some x, j, e) | (None, j, e) \<Rightarrow> f j e)"

definition valid_units :: "string list" where
  "valid_units = [''seconds'', ''minutes'', ''hours'', ''days'', ''weeks'']"

text \<open>The duration of one unit, for the keywords of \<^verbatim>\<open>timedelta\<close> used here.\<close>

definition unit_duration :: "string \<Rightarrow> timedelta option" where
  "unit_duration u =
     (if u = ''seconds'' then Some SECOND
      else if u = ''minutes'' then Some MINUTE
      else if u = ''hours'' then Some HOUR
      else if u = ''days'' then Some DAY
      else if u = ''weeks'' then Some WEEK
      else None)"

text \<open>
  \<^verbatim>\<open>datetime.timedelta(**{unit: n})\<close>: TypeError for an unknown keyword, OverflowError
  when \<open>n\<close> units are out of the range of durations.
\<close>

definition timedelta_of :: "string \<Rightarrow> int \<Rightarrow> exn + timedelta" where
  "timedelta_of u n =
     (case unit_duration u of None \<Rightarrow> Inl TypeError | Some d \<Rightarrow> mk_timedelta (n * d))"

definition weekdays :: "string list" where
  "weekdays = [''monday'', ''tuesday'', ''wednesday'', ''thursday'', ''friday'',
               ''saturday'', ''sunday'']"

text \<open>\<^verbatim>\<open>weekdays.index(d)\<close>, for a \<open>d\<close> that is in the tuple.\<close>

fun index_of :: "'a list \<Rightarrow> 'a \<Rightarrow> int" where
  "index_of [] d = 0"
| "index_of (x # xs) d = (if x = d then 0 else 1 + index_of xs d)"

text \<open>Lines 606 to 610: the unit is one of the five.\<close>

definition check_unit :: "job \<Rightarrow> env \<Rightarrow> outcome" where
  "check_unit j e =
     (case unit j of
        None \<Rightarrow> (Some ScheduleValueError, j, e)
      | Some u \<Rightarrow> if u \<notin> set valid_units then (Some ScheduleValueError, j, e)
                  else (None, j, e))"

text \<open>Lines 612 to 619: the effective interval and the period.\<close>

definition resolve_period :: "job \<Rightarrow> env \<Rightarrow> outcome" where
  "resolve_period j e =
     (case latest j of
        Some l \<Rightarrow>
          if \<not> (l \<ge> interval j) then (Some ScheduleError, j, e)
          else (let (n, e') = randint (interval j) l e
                in case unit j of
                     None \<Rightarrow> (Some TypeError, j, e')
                   | Some u \<Rightarrow>
                       (case timedelta_of u n of
                          Inl x \<Rightarrow> (Some x, j, e')
                        | Inr p \<Rightarrow> (None, j\<lparr>period := Some p\<rparr>, e')))
      | None \<Rightarrow>
          (case unit j of
             None \<Rightarrow> (Some TypeError, j, e)
           | Some u \<Rightarrow>
               (case timedelta_of u (interval j) of
                  Inl x \<Rightarrow> (Some x, j, e)
                | Inr p \<Rightarrow> (None, j\<lparr>period := Some p\<rparr>, e))))"

text \<open>Lines 620 to 625: the base instant. A datetime is always truthy.\<close>

definition base_instant :: "job \<Rightarrow> env \<Rightarrow> outcome" where
  "base_instant j e =
     (case period j of
        None \<Rightarrow> (Some TypeError, j, e)
      | Some p \<Rightarrow>
          (case last_run j of
             Some l \<Rightarrow>
               (case datetime_add l p of
                  Inl x \<Rightarrow> (Some x, j, e)
                | Inr t \<Rightarrow> (None, j\<lparr>next_run := Some t\<rparr>, e))
           | None \<Rightarrow>
               (case next_run j of
                  Some n \<Rightarrow> (None, j, e)
                | None \<Rightarrow>
                    (let (t, e') = now e
                     in case datetime_add t p of
                          Inl x \<Rightarrow> (Some x, j, e')
                        | Inr t' \<Rightarrow> (None, j\<lparr>next_run := Some t'\<rparr>, e')))))"

text \<open>
  Lines 626 to 646: the weekday anchor. The duration
  \<^verbatim>\<open>timedelta(days_ahead) - self.period\<close> is built first, then added.
\<close>

definition weekday_anchor :: "job \<Rightarrow> env \<Rightarrow> outcome" where
  "weekday_anchor j e =
     (case start_day j of
        None \<Rightarrow> (None, j, e)
      | Some d \<Rightarrow>
          if unit j \<noteq> Some ''weeks'' then (Some ScheduleValueError, j, e)
          else if d \<notin> set weekdays then (Some ScheduleValueError, j, e)
          else (case (next_run j, period j) of
                  (Some n, Some p) \<Rightarrow>
                    (let wd = index_of weekdays d;
                         days_ahead = wd - weekday n;
                         days_ahead' = (if days_ahead \<le> 0 then days_ahead + 7 else days_ahead)
                     in case mk_timedelta (days_ahead' * DAY - p) of
                          Inl x \<Rightarrow> (Some x, j, e)
                        | Inr d \<Rightarrow>
                            (case datetime_add n d of
                               Inl x \<Rightarrow> (Some x, j, e)
                             | Inr t \<Rightarrow> (None, j\<lparr>next_run := Some t\<rparr>, e)))
                | _ \<Rightarrow> (Some TypeError, j, e)))"

text \<open>
  Lines 647 to 678: the time of day. \<open>hour_kw\<close> and \<open>minute_kw\<close> are the entries of
  \<^verbatim>\<open>kwargs\<close> that depend on the unit.
\<close>

definition hour_kw :: "job \<Rightarrow> py_time \<Rightarrow> int option" where
  "hour_kw j a = (if unit j = Some ''days'' \<or> start_day j \<noteq> None then Some (hour a) else None)"

definition minute_kw :: "job \<Rightarrow> py_time \<Rightarrow> int option" where
  "minute_kw j a =
     (if unit j \<in> {Some ''days'', Some ''hours''} \<or> start_day j \<noteq> None
      then Some (minute a) else None)"

text \<open>
  Lines 663 to 678: what is subtracted from \<^verbatim>\<open>next_run\<close> when the time of day is
  still to come, given the reading \<open>t\<close> of the clock: one day, one hour or one minute,
  as the unit is, and for a daily job only when the interval is 1; \<open>None\<close> when no
  branch is taken.
\<close>

definition catch_up :: "job \<Rightarrow> py_time \<Rightarrow> instant \<Rightarrow> timedelta option" where
  "catch_up j a t =
     (if unit j = Some ''days'' \<and> time_less (time_of t) a \<and> interval j = 1 then Some DAY
      else if unit j = Some ''hours'' \<and>
              (minute a > minute_of t \<or> (minute a = minute_of t \<and> second a > second_of t))
      then Some HOUR
      else if unit j = Some ''minutes'' \<and> second a > second_of t then Some MINUTE
      else None)"

text \<open>Line 661: \<^verbatim>\<open>not self.last_run or (self.next_run - self.last_run) > self.period\<close>.\<close>

definition overran :: "job \<Rightarrow> instant \<Rightarrow> timedelta \<Rightarrow> bool" where
  "overran j n p = (case last_run j of None \<Rightarrow> True | Some l \<Rightarrow> n - l > p)"

definition at_time_align :: "job \<Rightarrow> env \<Rightarrow> outcome" where
  "at_time_align j e =
     (case at_time j of
        None \<Rightarrow> (None, j, e)
      | Some a \<Rightarrow>
          if unit j \<notin> {Some ''days'', Some ''hours'', Some ''minutes''} \<and> start_day j = None
          then (Some ScheduleValueError, j, e)
          else (case (next_run j, period j) of
                  (Some n, Some p) \<Rightarrow>
                    (case replace n (hour_kw j a) (minute_kw j a) (Some (second a)) (Some 0) of
                       None \<Rightarrow> (Some ValueError, j, e)
                     | Some n' \<Rightarrow>
                         if overran j n' p
                         then (let (t, e') = now e
                               in case catch_up j a t of
                                    None \<Rightarrow> (None, j\<lparr>next_run := Some n'\<rparr>, e')
                                  | Some d \<Rightarrow>
                                      (case datetime_add n' (- d) of
                                         Inl x \<Rightarrow> (Some x, j\<lparr>next_run := Some n'\<rparr>, e')
                                       | Inr t' \<Rightarrow> (None, j\<lparr>next_run := Some t'\<rparr>, e')))
                         else (None, j\<lparr>next_run := Some n'\<rparr>, e))
                | _ \<Rightarrow> (Some TypeError, j, e)))"

text \<open>Lines 679 to 682: anchor and time of day together.\<close>

definition double_check :: "job \<Rightarrow> env \<Rightarrow> outcome" where
  "double_check j e =
     (if start_day j \<noteq> None \<and> at_time j \<noteq> None
      then (case (next_run j, period j) of
              (Some n, Some p) \<Rightarrow>
                (let (t, e') = now e in
                 if days_of (n - t) \<ge> 7
                 then (case datetime_add n (- p) of
                         Inl x \<Rightarrow> (Some x, j, e')
                       | Inr t' \<Rightarrow> (None, j\<lparr>next_run := Some t'\<rparr>, e'))
                 else (None, j, e'))
            | _ \<Rightarrow> (Some TypeError, j, e))
      else (None, j, e))"

text \<open>\<^verbatim>\<open>Job._schedule_next_run\<close>.\<close>

definition schedule_next_run :: "job \<Rightarrow> env \<Rightarrow> outcome" where
  "schedule_next_run j e =
     and_then (and_then (and_then (and_then (and_then (check_unit j e)
       resolve_period) base_instant) weekday_anchor) at_time_align) double_check"

section \<open>Job configuration\<close>

text \<open>\<^verbatim>\<open>Job.__init__\<close>.\<close>

definition Job :: "int \<Rightarrow> bool \<Rightarrow> job" where
  "Job n sched = \<lparr>interval = n, latest = None, args = None, kwargs = None,
     job_func_name = None, unit = None, at_time = None, last_run = None, next_run = None,
     period = None, start_day = None, cancel_after = None, has_scheduler = sched\<rparr>"

definition seconds :: "job \<Rightarrow> job" where "seconds j = j\<lparr>unit := Some ''seconds''\<rparr>"
definition minutes :: "job \<Rightarrow> job" where "minutes j = j\<lparr>unit := Some ''minutes''\<rparr>"
definition hours :: "job \<Rightarrow> job" where "hours j = j\<lparr>unit := Some ''hours''\<rparr>"
definition days :: "job \<Rightarrow> job" where "days j = j\<lparr>unit := Some ''days''\<rparr>"
definition weeks :: "job \<Rightarrow> job" where "weeks j = j\<lparr>unit := Some ''weeks''\<rparr>"

text \<open>The seven weekday properties differ in the name they store only.\<close>

definition weekday_property :: "string \<Rightarrow> job \<Rightarrow> exn option \<times> job" where
  "weekday_property d j =
     (if interval j \<noteq> 1 then (Some IntervalError, j)
      else (None, weeks (j\<lparr>start_day := Some d\<rparr>)))"

definition monday :: "job \<Rightarrow> exn option \<times> job" where "monday = weekday_property ''monday''"
definition tuesday :: "job \<Rightarrow> exn option \<times> job" where "tuesday = weekday_property ''tuesday''"
definition wednesday :: "job \<Rightarrow> exn option \<times> job" where
  "wednesday = weekday_property ''wednesday''"
definition thursday :: "job \<Rightarrow> exn option \<times> job" where "thursday = weekday_property ''thursday''"
definition friday :: "job \<Rightarrow> exn option \<times> job" where "friday = weekday_property ''friday''"
definition saturday :: "job \<Rightarrow> exn option \<times> job" where "saturday = weekday_property ''saturday''"
definition sunday :: "job \<Rightarrow> exn option \<times> job" where "sunday = weekday_property ''sunday''"

subsection \<open>\<^verbatim>\<open>Job.at\<close>\<close>

text \<open>
  The three regular expressions, on strings of one-byte characters: \<^verbatim>\<open>\d\<close> is an ASCII
  digit, and \<^verbatim>\<open>$\<close> matches at the end of the string or before a final newline.
\<close>

definition digits :: string where "digits = ''0123456789''"

definition two_chars :: "string \<Rightarrow> string \<Rightarrow> bool" where
  "two_chars firsts s = (case s of [a, b] \<Rightarrow> a \<in> set firsts \<and> b \<in> set digits | _ \<Rightarrow> False)"

definition at_dollar :: "(string \<Rightarrow> bool) \<Rightarrow> string \<Rightarrow> bool" where
  "at_dollar p s = (p s \<or> (s \<noteq> [] \<and> last s = CHR 0x0A \<and> p (butlast s)))"

text \<open>\<^verbatim>\<open>[0-2]\d:[0-5]\d(:[0-5]\d)?\<close>\<close>

definition daily_pattern :: "string \<Rightarrow> bool" where
  "daily_pattern s =
     (two_chars ''012'' (take 2 s) \<and> take 1 (drop 2 s) = '':'' \<and>
      two_chars ''012345'' (take 2 (drop 3 s)) \<and>
      (drop 5 s = [] \<or> (take 1 (drop 5 s) = '':'' \<and> two_chars ''012345'' (drop 6 s))))"

text \<open>\<^verbatim>\<open>([0-5]\d)?:[0-5]\d\<close>\<close>

definition hourly_pattern :: "string \<Rightarrow> bool" where
  "hourly_pattern s =
     ((take 1 s = '':'' \<and> two_chars ''012345'' (drop 1 s)) \<or>
      (two_chars ''012345'' (take 2 s) \<and> take 1 (drop 2 s) = '':'' \<and>
       two_chars ''012345'' (drop 3 s)))"

text \<open>\<^verbatim>\<open>:[0-5]\d\<close>\<close>

definition minutely_pattern :: "string \<Rightarrow> bool" where
  "minutely_pattern s = (take 1 s = '':'' \<and> two_chars ''012345'' (drop 1 s))"

text \<open>\<^verbatim>\<open>str.split(sep)\<close> for a separator of one character.\<close>

fun split_on :: "char \<Rightarrow> string \<Rightarrow> string list" where
  "split_on c [] = [[]]"
| "split_on c (x # xs) =
     (if x = c then [] # split_on c xs
      else (case split_on c xs of y # ys \<Rightarrow> (x # y) # ys | [] \<Rightarrow> [[x]]))"

text \<open>
  \<^verbatim>\<open>int(x)\<close> for what reaches it in \<^verbatim>\<open>at\<close>: the integer 0, or a piece of a string
  that matched one of the patterns (decimal digits, with whitespace around them
  stripped). \<open>None\<close> is ValueError.
\<close>

datatype comp = CStr string | CInt int

definition is_space :: "char \<Rightarrow> bool" where
  "is_space c = (c \<in> {CHR '' '', CHR 0x09, CHR 0x0A, CHR 0x0B, CHR 0x0C, CHR 0x0D})"

definition strip :: "string \<Rightarrow> string" where
  "strip s = rev (dropWhile is_space (rev (dropWhile is_space s)))"

definition digit_value :: "char \<Rightarrow> int" where
  "digit_value c = index_of digits c"

definition py_int :: "comp \<Rightarrow> int option" where
  "py_int x =
     (case x of
        CInt n \<Rightarrow> Some n
      | CStr s \<Rightarrow>
          (let d = strip s in
           if d \<noteq> [] \<and> list_all (\<lambda>c. c \<in> set digits) d
           then Some (foldl (\<lambda>acc c. 10 * acc + digit_value c) 0 d)
           else None))"

text \<open>\<^verbatim>\<open>datetime.time(hour, minute, second)\<close>; out of range is ValueError.\<close>

definition mk_time :: "int \<Rightarrow> int \<Rightarrow> int \<Rightarrow> py_time option" where
  "mk_time h m s =
     (if 0 \<le> h \<and> h \<le> 23 \<and> 0 \<le> m \<and> m \<le> 59 \<and> 0 \<le> s \<and> s \<le> 59
      then Some \<lparr>hour = h, minute = m, second = s, microsecond = 0\<rparr> else None)"

text \<open>Truthiness of an optional string: neither \<^verbatim>\<open>None\<close> nor empty.\<close>

definition truthy :: "string option \<Rightarrow> bool" where
  "truthy s = (s \<noteq> None \<and> s \<noteq> Some [])"

text \<open>Lines 424 to 439: the three components, each a piece of the string or the integer 0.\<close>

definition time_components :: "job \<Rightarrow> string list \<Rightarrow> (comp \<times> comp \<times> comp) option" where
  "time_components j time_values =
     (case time_values of
        [h, m, s] \<Rightarrow> Some (CStr h, CStr m, CStr s)
      | [a, b] \<Rightarrow>
          if unit j = Some ''minutes'' then Some (CInt 0, CInt 0, CStr b)
          else if unit j = Some ''hours'' \<and> a \<noteq> [] then Some (CInt 0, CStr a, CStr b)
          else Some (CStr a, CStr b, CInt 0)
      | _ \<Rightarrow> None)"

definition at :: "job \<Rightarrow> string \<Rightarrow> exn option \<times> job" where
  "at j time_str =
     (if unit j \<notin> {Some ''days'', Some ''hours'', Some ''minutes''} \<and> \<not> truthy (start_day j)
      then (Some ScheduleValueError, j)
      else if (unit j = Some ''days'' \<or> truthy (start_day j))
              \<and> \<not> at_dollar daily_pattern time_str
      then (Some ScheduleValueError, j)
      else if unit j = Some ''hours'' \<and> \<not> at_dollar hourly_pattern time_str
      then (Some ScheduleValueError, j)
      else if unit j = Some ''minutes'' \<and> \<not> at_dollar minutely_pattern time_str
      then (Some ScheduleValueError, j)
      else
        (case time_components j (split_on CHR '':'' time_str) of
           None \<Rightarrow> (Some ValueError, j)
         | Some (hour0, minute0, second0) \<Rightarrow>
             if unit j = Some ''days'' \<or> truthy (start_day j)
             then (case py_int hour0 of
                     None \<Rightarrow> (Some ValueError, j)
                   | Some h \<Rightarrow>
                       if \<not> (0 \<le> h \<and> h \<le> 23) then (Some ScheduleValueError, j)
                       else (case (py_int minute0, py_int second0) of
                               (Some m, Some s) \<Rightarrow>
                                 (case mk_time h m s of
                                    None \<Rightarrow> (Some ValueError, j)
                                  | Some t \<Rightarrow> (None, j\<lparr>at_time := Some t\<rparr>))
                             | _ \<Rightarrow> (Some ValueError, j)))
             else
               (let minute1 = (if unit j = Some ''hours'' then minute0 else CInt 0)
                in case (py_int minute1, py_int second0) of
                     (Some m, Some s) \<Rightarrow>
                       (case mk_time 0 m s of
                          None \<Rightarrow> (Some ValueError, j)
                        | Some t \<Rightarrow> (None, j\<lparr>at_time := Some t\<rparr>))
                   | _ \<Rightarrow> (Some ValueError, j))))"

subsection \<open>\<^verbatim>\<open>Job.to\<close> and \<^verbatim>\<open>Job.until\<close>\<close>

definition to :: "job \<Rightarrow> int \<Rightarrow> job" where
  "to j l = j\<lparr>latest := Some l\<rparr>"

text \<open>
  \<^verbatim>\<open>until\<close> with an aware datetime or a timedelta. A \<^verbatim>\<open>datetime.time\<close> or a string
  gives a naive datetime, whose comparison with the aware \<^verbatim>\<open>now\<close> is outside this
  model of instants.
\<close>

datatype until_arg = UntilDatetime instant | UntilTimedelta timedelta

text \<open>Line 534: the check that closes \<^verbatim>\<open>until\<close>, after \<^verbatim>\<open>cancel_after\<close> is assigned.\<close>

definition until_check :: "job \<Rightarrow> instant \<Rightarrow> env \<Rightarrow> outcome" where
  "until_check j c e =
     (let (t, e') = now e
      in if c < t then (Some ScheduleValueError, j, e') else (None, j, e'))"

definition until :: "job \<Rightarrow> until_arg \<Rightarrow> env \<Rightarrow> outcome" where
  "until j a e =
     (case a of
        UntilDatetime t \<Rightarrow> until_check (j\<lparr>cancel_after := Some t\<rparr>) t e
      | UntilTimedelta d \<Rightarrow>
          (let (t, e1) = now e
           in case datetime_add t d of
                Inl x \<Rightarrow> (Some x, j, e1)
              | Inr c \<Rightarrow> until_check (j\<lparr>cancel_after := Some c\<rparr>) c e1))"

definition is_overdue :: "job \<Rightarrow> instant \<Rightarrow> bool" where
  "is_overdue j when = (case cancel_after j of None \<Rightarrow> False | Some c \<Rightarrow> when > c)"

section \<open>The scheduler\<close>

text \<open>
  A job function is a coroutine function, looked up by name at dispatch; it is
  modelled by the value its coroutine returns. A task is the coroutine handed to
  \<^verbatim>\<open>asyncio.create_task\<close>: \<open>task_result\<close> is what it will return, \<open>task_done\<close> is
  what \<^verbatim>\<open>task.done()\<close> answers. Exceptions inside a coroutine are outside the model.
\<close>

type_synonym callable = "pyval list \<Rightarrow> (string \<times> pyval) list \<Rightarrow> pyval"

record task =
  task_name :: string
  task_result :: pyval
  task_done :: bool

text \<open>
  Job objects live in a store and are named by their address, so that the scheduler's
  list, the sorted list of a tick and the caller share one object. \<open>globals\<close> is the
  module namespace that \<^verbatim>\<open>eval(self.job_func_name)\<close> looks the name up in.
\<close>

record world =
  objs :: "nat \<Rightarrow> job"
  allocated :: nat
  jobs :: "nat list"
  tasks :: "task list"
  globals :: "string \<Rightarrow> callable option"
  environ :: env

text \<open>\<^verbatim>\<open>Scheduler.every\<close>: a new job object.\<close>

definition every :: "int \<Rightarrow> world \<Rightarrow> nat \<times> world" where
  "every n w = (allocated w,
     w\<lparr>objs := (objs w)(allocated w := Job n True), allocated := Suc (allocated w)\<rparr>)"

text \<open>\<^verbatim>\<open>Job.do\<close>, with the name of the function for the function.\<close>

definition do :: "nat \<Rightarrow> string \<Rightarrow> pyval list \<Rightarrow> (string \<times> pyval) list \<Rightarrow> world
    \<Rightarrow> exn option \<times> world" where
  "do i f a k w =
     (let j0 = (objs w i)\<lparr>args := Some a, kwargs := Some k, job_func_name := Some f\<rparr>;
          (x, j1, e1) = schedule_next_run j0 (environ w);
          w1 = w\<lparr>objs := (objs w)(i := j1), environ := e1\<rparr>
      in case x of
           Some err \<Rightarrow> (Some err, w1)
         | None \<Rightarrow> if \<not> has_scheduler j1 then (Some ScheduleError, w1)
                   else (None, w1\<lparr>jobs := jobs w1 @ [i]\<rparr>))"

text \<open>\<^verbatim>\<open>Job.should_run\<close>: the assertion first, then one reading of the clock.\<close>

definition should_run :: "nat \<Rightarrow> world \<Rightarrow> (exn + bool) \<times> world" where
  "should_run i w =
     (case next_run (objs w i) of
        None \<Rightarrow> (Inl AssertionError, w)
      | Some n \<Rightarrow> (let (t, e1) = now (environ w) in (Inr (t \<ge> n), w\<lparr>environ := e1\<rparr>)))"

text \<open>What \<^verbatim>\<open>Job.run\<close> returns: the class \<^verbatim>\<open>CancelJob\<close>, or the task it created.\<close>

datatype ret = RetValue pyval | RetTask task

definition run :: "nat \<Rightarrow> world \<Rightarrow> (exn + ret) \<times> world" where
  "run i w =
     (let j = objs w i;
          (t, e1) = now (environ w);
          w1 = w\<lparr>environ := e1\<rparr>
      in if is_overdue j t then (Inr (RetValue CancelJobClass), w1)
         else
           (case job_func_name j of
              None \<Rightarrow> (Inl TypeError, w1)
            | Some name \<Rightarrow>
                (case globals w1 name of
                   None \<Rightarrow> (Inl NameError, w1)
                 | Some f \<Rightarrow>
                     (case (args j, kwargs j) of
                        (Some a, Some k) \<Rightarrow>
                          (let tk = \<lparr>task_name = name, task_result = f a k, task_done = False\<rparr>
                           in if \<not> has_scheduler j then (Inl AttributeError, w1)
                              else
                                (let w2 = w1\<lparr>tasks := tasks w1 @ [tk]\<rparr>;
                                     (t2, e2) = now (environ w2);
                                     j2 = j\<lparr>last_run := Some t2\<rparr>;
                                     (x, j3, e3) = schedule_next_run j2 e2;
                                     w3 = w2\<lparr>objs := (objs w2)(i := j3), environ := e3\<rparr>
                                 in case x of
                                      Some err \<Rightarrow> (Inl err, w3)
                                    | None \<Rightarrow>
                                        (case next_run j3 of
                                           None \<Rightarrow> (if cancel_after j3 = None
                                                     then (Inr (RetTask tk), w3)
                                                     else (Inl TypeError, w3))
                                         | Some n \<Rightarrow>
                                             if is_overdue j3 n
                                             then (Inr (RetValue CancelJobClass), w3)
                                             else (Inr (RetTask tk), w3))))
                      | _ \<Rightarrow> (Inl TypeError, w1)))))"

text \<open>\<^verbatim>\<open>Scheduler.cancel_job\<close>: \<^verbatim>\<open>list.remove\<close>, its ValueError caught.\<close>

definition cancel_job :: "nat \<Rightarrow> world \<Rightarrow> world" where
  "cancel_job i w = w\<lparr>jobs := remove1 i (jobs w)\<rparr>"

text \<open>\<^verbatim>\<open>isinstance(ret, CancelJob) or ret is CancelJob\<close>; a task is neither.\<close>

definition is_cancel :: "ret \<Rightarrow> bool" where
  "is_cancel r = (case r of RetValue v \<Rightarrow> v = CancelJobInstance \<or> v = CancelJobClass
                  | RetTask tk \<Rightarrow> False)"

text \<open>\<^verbatim>\<open>Scheduler._run_job\<close>.\<close>

definition run_job :: "nat \<Rightarrow> world \<Rightarrow> exn option \<times> world" where
  "run_job i w =
     (case run i w of
        (Inl err, w1) \<Rightarrow> (Some err, w1)
      | (Inr r, w1) \<Rightarrow> if is_cancel r then (None, cancel_job i w1) else (None, w1))"

subsection \<open>\<^verbatim>\<open>Scheduler.run_pending\<close>\<close>

text \<open>
  The generator \<^verbatim>\<open>(job for job in self.jobs if job.should_run)\<close>, consumed by
  \<^verbatim>\<open>sorted\<close> before any job runs: the due jobs in list order, each with the
  \<^verbatim>\<open>next_run\<close> it is compared by.
\<close>

fun runnable_jobs :: "nat list \<Rightarrow> world \<Rightarrow> (exn + (instant \<times> nat) list) \<times> world" where
  "runnable_jobs [] w = (Inr [], w)"
| "runnable_jobs (i # is) w =
     (case should_run i w of
        (Inl err, w1) \<Rightarrow> (Inl err, w1)
      | (Inr b, w1) \<Rightarrow>
          (case runnable_jobs is w1 of
             (Inl err, w2) \<Rightarrow> (Inl err, w2)
           | (Inr ds, w2) \<Rightarrow>
               (Inr ((if b then (case next_run (objs w i) of Some n \<Rightarrow> [(n, i)] | None \<Rightarrow> [])
                      else []) @ ds), w2)))"

text \<open>The loop \<^verbatim>\<open>for job in sorted(...): self._run_job(job)\<close>; an exception ends it.\<close>

fun run_jobs :: "nat list \<Rightarrow> world \<Rightarrow> exn option \<times> world" where
  "run_jobs [] w = (None, w)"
| "run_jobs (i # is) w =
     (case run_job i w of
        (Some err, w1) \<Rightarrow> (Some err, w1)
      | (None, w1) \<Rightarrow> run_jobs is w1)"

text \<open>
  \<^verbatim>\<open>await asyncio.gather(*tasks)\<close> returns when every task given to it is done.
\<close>

definition gather :: "task list \<Rightarrow> task list" where
  "gather ts = map (\<lambda>tk. tk\<lparr>task_done := True\<rparr>) ts"

text \<open>
  \<^verbatim>\<open>sorted\<close> is stable and compares jobs by \<^verbatim>\<open>next_run\<close>.
\<close>

definition dispatch_order :: "(instant \<times> nat) list \<Rightarrow> nat list" where
  "dispatch_order ds = map snd (sort_key fst ds)"

definition run_pending :: "world \<Rightarrow> exn option \<times> world" where
  "run_pending w =
     (case runnable_jobs (jobs w) w of
        (Inl err, w1) \<Rightarrow> (Some err, w1)
      | (Inr ds, w1) \<Rightarrow>
          (case run_jobs (dispatch_order ds) w1 of
             (Some err, w2) \<Rightarrow> (Some err, w2)
           | (None, w2) \<Rightarrow>
               (let w3 = w2\<lparr>tasks := filter (\<lambda>tk. \<not> task_done tk) (tasks w2)\<rparr>
                in if tasks w3 \<noteq> [] then (None, w3\<lparr>tasks := gather (tasks w3)\<rparr>)
                   else (None, w3))))"

section \<open>Serialization\<close>











section \<open>Auxiliary notions for the proofs\<close>

text \<open>\<open>j'\<close> is \<open>j\<close> with, at most, \<open>period\<close> and \<open>next_run\<close> reassigned.\<close>

definition reschedules :: "job \<Rightarrow> job \<Rightarrow> bool" where
  "reschedules j j' = (\<exists>p n. j' = j\<lparr>period := p, next_run := n\<rparr>)"

text \<open>An instant that a \<^verbatim>\<open>datetime\<close> can hold.\<close>

definition in_range :: "instant \<Rightarrow> bool" where
  "in_range t = (DATETIME_MIN \<le> t \<and> t \<le> DATETIME_MAX)"

section \<open>Example jobs and environments\<close>

text \<open>A clock that advances by one microsecond per reading from \<open>t\<close>.\<close>

definition env_at :: "instant \<Rightarrow> env" where
  "env_at t = \<lparr>clock = (\<lambda>k. t + int k), entropy = (\<lambda>k. k)\<rparr>"

text \<open>A world whose objects are all the job \<open>j\<close>, with nothing registered, at time \<open>t\<close>.\<close>

definition world_with :: "job \<Rightarrow> instant \<Rightarrow> world" where
  "world_with j t = \<lparr>objs = (\<lambda>i. j), allocated = 1, jobs = [], tasks = [],
     globals = (\<lambda>name. None), environ = env_at t\<rparr>"

text \<open>\<^verbatim>\<open>every(2).days.at("10:30")\<close> and \<^verbatim>\<open>every().day.at("10:30")\<close>, not yet bound.\<close>

definition every_2_days_at_1030 :: job where
  "every_2_days_at_1030 = snd (at (days (Job 2 True)) ''10:30'')"

definition every_day_at_1030 :: job where
  "every_day_at_1030 = snd (at (days (Job 1 True)) ''10:30'')"

text \<open>\<^verbatim>\<open>every().monday.at("09:00")\<close>, not yet bound.\<close>

definition monday_at_9 :: job where
  "monday_at_9 = snd (at (snd (monday (Job 1 True))) ''09:00'')"

text \<open>A module with a function \<^verbatim>\<open>work\<close> that returns \<^verbatim>\<open>None\<close>.\<close>

definition work_globals :: "string \<Rightarrow> callable option" where
  "work_globals name = (if name = ''work'' then Some (\<lambda>a k. NoneValue) else None)"

text \<open>
  \<^verbatim>\<open>every(10).seconds.until(timedelta(seconds=3)).do(work)\<close> on a clock that starts at 0.
\<close>

definition world_until_3s :: world where
  "world_until_3s =
     (let (x, j, e) = until (seconds (Job 10 True)) (UntilTimedelta (3 * SECOND)) (env_at 0);
          w = \<lparr>objs = (\<lambda>i. j), allocated = 1, jobs = [], tasks = [],
               globals = work_globals, environ = e\<rparr>
      in snd (do 0 ''work'' [] [] w))"

text \<open>
  A job of every 10 seconds, due at 20 s, with the deadline \<open>c\<close>, on a clock that starts
  at 20 s.
\<close>

definition world_deadline :: "instant \<Rightarrow> world" where
  "world_deadline c =
     \<lparr>objs = (\<lambda>i. (seconds (Job 10 True))\<lparr>args := Some [], kwargs := Some [],
                job_func_name := Some ''work'', next_run := Some (20 * SECOND),
                cancel_after := Some c\<rparr>),
      allocated = 1, jobs = [0], tasks = [], globals = work_globals,
      environ = env_at (20 * SECOND)\<rparr>"

text \<open>A module with a function \<^verbatim>\<open>quit\<close> that returns \<^verbatim>\<open>CancelJob\<close>.\<close>

definition quit_globals :: "string \<Rightarrow> callable option" where
  "quit_globals name = (if name = ''quit'' then Some (\<lambda>a k. CancelJobClass) else None)"

text \<open>\<^verbatim>\<open>every().second.do(quit)\<close>, due at 5 s, on a clock that starts at 6 s.\<close>

definition world_quit :: world where
  "world_quit =
     \<lparr>objs = (\<lambda>i. (seconds (Job 1 True))\<lparr>args := Some [], kwargs := Some [],
                job_func_name := Some ''quit'', next_run := Some (5 * SECOND),
                period := Some SECOND\<rparr>),
      allocated = 1, jobs = [0], tasks = [], globals = quit_globals,
      environ = env_at (6 * SECOND)\<rparr>"





section \<open>What a tick is to do\<close>

text \<open>
  The jobs a tick is to dispatch, written from the description and not from the code:
  the registered jobs whose \<^verbatim>\<open>next_run\<close> is not after the reading of the clock taken for
  them (the job at position \<open>k\<close> of the list gets the reading number \<open>k\<close>), in ascending
  order of \<^verbatim>\<open>next_run\<close>, jobs of equal \<^verbatim>\<open>next_run\<close> in the order of the list.
\<close>

definition due_spec :: "world \<Rightarrow> nat list" where
  "due_spec w =
     map snd (sort_key fst
       (map (\<lambda>(k, i). (the (next_run (objs w i)), i))
          (filter (\<lambda>(k, i). the (next_run (objs w i)) \<le> clock (environ w) k)
             (enumerate 0 (jobs w)))))"

text \<open>The task that dispatching job \<open>i\<close> creates: the coroutine of its function on its arguments.\<close>

definition created_task :: "world \<Rightarrow> nat \<Rightarrow> task" where
  "created_task w i =
     \<lparr>task_name = the (job_func_name (objs w i)),
      task_result = the (globals w (the (job_func_name (objs w i))))
                      (the (args (objs w i))) (the (kwargs (objs w i))),
      task_done = False\<rparr>"

text \<open>A job without deadline whose function and arguments are there.\<close>

definition plain_job :: "world \<Rightarrow> nat \<Rightarrow> bool" where
  "plain_job w i =
     (cancel_after (objs w i) = None \<and> job_func_name (objs w i) \<noteq> None \<and>
      globals w (the (job_func_name (objs w i))) \<noteq> None \<and>
      args (objs w i) \<noteq> None \<and> kwargs (objs w i) \<noteq> None \<and> has_scheduler (objs w i))"

text \<open>A module with a function \<^verbatim>\<open>echo\<close> that returns its first argument.\<close>

definition echo_globals :: "string \<Rightarrow> callable option" where
  "echo_globals name =
     (if name = ''echo'' then Some (\<lambda>a k. case a of [] \<Rightarrow> NoneValue | x # xs \<Rightarrow> x) else None)"

text \<open>
  Three jobs of every 10 seconds, \<^verbatim>\<open>echo(0)\<close> due at 8 s, \<^verbatim>\<open>echo(1)\<close> due at 5 s and
  \<^verbatim>\<open>echo(2)\<close> due at 50 s, registered in this order, at 9 s, with one finished and one
  unfinished task left from before.
\<close>

definition echo_job :: "int \<Rightarrow> instant \<Rightarrow> job" where
  "echo_job v n = (seconds (Job 10 True))\<lparr>args := Some [IntValue v], kwargs := Some [],
     job_func_name := Some ''echo'', period := Some (10 * SECOND), next_run := Some n\<rparr>"

definition world_tick :: world where
  "world_tick =
     \<lparr>objs = (\<lambda>i. if i = 0 then echo_job 0 (8 * SECOND)
                   else if i = 1 then echo_job 1 (5 * SECOND) else echo_job 2 (50 * SECOND)),
      allocated = 3, jobs = [0, 1, 2],
      tasks = [\<lparr>task_name = ''old'', task_result = NoneValue, task_done = True\<rparr>,
               \<lparr>task_name = ''slow'', task_result = NoneValue, task_done = False\<rparr>],
      globals = echo_globals, environ = env_at (9 * SECOND)\<rparr>"

section \<open>Lemmas on the next-run computation\<close>

lemma and_then_None [simp]: "and_then (None, j, e) f = f j e"
  by (simp add: and_then_def)

lemma and_then_Some [simp]: "and_then (Some x, j, e) f = (Some x, j, e)"
  by (simp add: and_then_def)

subsection \<open>Ranges\<close>

lemma datetime_add_in_range: "in_range (t + d) \<Longrightarrow> datetime_add t d = Inr (t + d)"
  by (simp add: datetime_add_def in_range_def)

lemma datetime_add_out_of_range:
  "\<not> in_range (t + d) \<Longrightarrow> datetime_add t d = Inl OverflowError"
  by (auto simp: datetime_add_def in_range_def)

lemma datetime_add_Inr: "datetime_add t d = Inr r \<Longrightarrow> r = t + d \<and> in_range r"
  by (auto simp: datetime_add_def in_range_def split: if_splits)

lemma mk_timedelta_small:
  "- 999999999 * DAY \<le> v \<Longrightarrow> v < 1000000000 * DAY \<Longrightarrow> mk_timedelta v = Inr v"
proof -
  assume a: "- 999999999 * DAY \<le> v" and b: "v < 1000000000 * DAY"
  have "- 999999999 \<le> v div DAY"
    using a zdiv_mono1[of "- 999999999 * DAY" v DAY] by (simp add: DAY_def)
  moreover have "v div DAY < 1000000000"
    using b by (simp add: DAY_def div_less_iff_less_mult)
  ultimately show ?thesis by (simp add: mk_timedelta_def)
qed

lemma mk_timedelta_Inr: "mk_timedelta v = Inr p \<Longrightarrow> p = v"
  by (auto simp: mk_timedelta_def split: if_splits)

lemma unit_duration_valid:
  "u \<in> set valid_units \<Longrightarrow> unit_duration u \<noteq> None"
  by (auto simp: valid_units_def unit_duration_def)

subsection \<open>Days and weekdays\<close>

lemma div_add_days: "(t + k * DAY) div DAY = t div DAY + k"
  by (simp add: DAY_def)

lemma mod_add_days: "(t + k * DAY) mod DAY = t mod DAY"
  by (simp add: DAY_def)

lemma weekday_add_days: "weekday (t + k * DAY) = (weekday t + k) mod 7"
  unfolding weekday_def div_add_days by (simp add: mod_simps algebra_simps)

lemma date_start_add_days: "date_start (t + k * DAY) = date_start t + k * DAY"
  unfolding date_start_def mod_add_days by simp

lemma weekday_range: "0 \<le> weekday t \<and> weekday t < 7"
  by (simp add: weekday_def)

lemma time_of_day_range: "0 \<le> t - date_start t \<and> t - date_start t < DAY"
  by (simp add: date_start_def DAY_def)

lemma date_start_in_range: "in_range t \<Longrightarrow> in_range (date_start t)"
proof -
  assume a: "in_range t"
  have "date_start t = (t div DAY) * DAY" by (simp add: date_start_def minus_mod_eq_div_mult)
  moreover have "- 719162 \<le> t div DAY"
    using a zdiv_mono1[of "- 719162 * DAY" t DAY]
    by (simp add: in_range_def DATETIME_MIN_def DAY_def)
  ultimately have "DATETIME_MIN \<le> date_start t"
    by (simp add: DATETIME_MIN_def DAY_def)
  moreover have "date_start t \<le> t" using time_of_day_range[of t] by simp
  ultimately show ?thesis using a by (simp add: in_range_def)
qed

lemma days_of_ge_7: "(days_of d \<ge> 7) = (d \<ge> 7 * DAY)"
proof -
  have a: "d div DAY = (d - 7 * DAY) div DAY + 7"
    using div_add_days[of "d - 7 * DAY" 7] by simp
  have b: "(0 \<le> (d - 7 * DAY) div DAY) = (0 \<le> d - 7 * DAY)"
    by (rule pos_imp_zdiv_nonneg_iff) (simp add: DAY_def)
  show ?thesis unfolding days_of_def using a b by linarith
qed

lemma replace_time_of_day:
  assumes "0 \<le> h" "h \<le> 23" "0 \<le> m" "m \<le> 59" "0 \<le> s" "s \<le> 59"
  shows "replace n (Some h) (Some m) (Some s) (Some 0) =
           Some (date_start n + h * HOUR + m * MINUTE + s * SECOND)"
  using assms by (simp add: replace_def)

subsection \<open>The computation assigns \<open>period\<close> and \<open>next_run\<close> only\<close>

lemma reschedules_refl [simp]: "reschedules j j"
  unfolding reschedules_def by (rule exI[of _ "period j"], rule exI[of _ "next_run j"]) simp

lemma reschedules_period [simp]: "reschedules j (j\<lparr>period := p\<rparr>)"
  unfolding reschedules_def by (rule exI[of _ p], rule exI[of _ "next_run j"]) simp

lemma reschedules_next_run [simp]: "reschedules j (j\<lparr>next_run := n\<rparr>)"
  unfolding reschedules_def by (rule exI[of _ "period j"], rule exI[of _ n]) simp

lemma reschedules_trans: "reschedules j j1 \<Longrightarrow> reschedules j1 j2 \<Longrightarrow> reschedules j j2"
  unfolding reschedules_def by clarsimp blast

lemma check_unit_frame: "reschedules j (fst (snd (check_unit j e)))"
  by (simp add: check_unit_def split: option.splits)

lemma resolve_period_frame: "reschedules j (fst (snd (resolve_period j e)))"
  by (simp add: resolve_period_def Let_def split: option.splits prod.splits sum.splits)

lemma base_instant_frame: "reschedules j (fst (snd (base_instant j e)))"
  by (simp add: base_instant_def Let_def split: option.splits prod.splits sum.splits)

lemma weekday_anchor_frame: "reschedules j (fst (snd (weekday_anchor j e)))"
  by (simp add: weekday_anchor_def Let_def split: option.splits prod.splits sum.splits)

lemma at_time_align_frame: "reschedules j (fst (snd (at_time_align j e)))"
  by (simp add: at_time_align_def Let_def split: option.splits prod.splits sum.splits)

lemma double_check_frame: "reschedules j (fst (snd (double_check j e)))"
  by (simp add: double_check_def Let_def split: option.splits prod.splits sum.splits)

lemma and_then_frame:
  assumes "reschedules j (fst (snd r))"
    and "\<And>a b. reschedules a (fst (snd (f a b)))"
  shows "reschedules j (fst (snd (and_then r f)))"
proof (cases r)
  case (fields y a b)
  show ?thesis
  proof (cases y)
    case None
    with fields have "and_then r f = f a b" by (simp add: and_then_def)
    with assms(2)[of a b] assms(1) fields show ?thesis
      by (auto intro: reschedules_trans)
  next
    case (Some err)
    with fields assms(1) show ?thesis by (simp add: and_then_def)
  qed
qed

lemma schedule_next_run_frame: "reschedules j (fst (snd (schedule_next_run j e)))"
  unfolding schedule_next_run_def
  by (intro and_then_frame check_unit_frame resolve_period_frame base_instant_frame
        weekday_anchor_frame at_time_align_frame double_check_frame)

lemma schedule_next_run_cancel_after:
  "cancel_after (fst (snd (schedule_next_run j e))) = cancel_after j"
  using schedule_next_run_frame[of j e] by (auto simp: reschedules_def)

lemma schedule_next_run_last_run:
  "last_run (fst (snd (schedule_next_run j e))) = last_run j"
  using schedule_next_run_frame[of j e] by (auto simp: reschedules_def)

text \<open>The first two stages, for a valid unit and a period in range.\<close>

lemma prelude_period:
  assumes u: "unit j = Some u" and d: "unit_duration u = Some d"
    and n: "(latest j = None \<and> n = interval j) \<or>
            (\<exists>l. latest j = Some l \<and> interval j \<le> l \<and> n = fst (randint (interval j) l e))"
    and r: "- 999999999 * DAY \<le> n * d" "n * d < 1000000000 * DAY"
    and e1: "e1 = (case latest j of None \<Rightarrow> e | Some l \<Rightarrow> snd (randint (interval j) l e))"
  shows "and_then (check_unit j e) resolve_period = (None, j\<lparr>period := Some (n * d)\<rparr>, e1)"
proof -
  have v: "u \<in> set valid_units"
    using d by (auto simp: unit_duration_def valid_units_def split: if_splits)
  have c: "check_unit j e = (None, j, e)" using u v by (simp add: check_unit_def)
  have t: "timedelta_of u n = Inr (n * d)"
    using d mk_timedelta_small[OF r] by (simp add: timedelta_of_def)
  from n show ?thesis
  proof
    assume "latest j = None \<and> n = interval j"
    then show ?thesis using c u t e1 by (simp add: resolve_period_def)
  next
    assume "\<exists>l. latest j = Some l \<and> interval j \<le> l \<and> n = fst (randint (interval j) l e)"
    then obtain l where l: "latest j = Some l" "interval j \<le> l"
      "n = fst (randint (interval j) l e)" by blast
    then show ?thesis using c u t e1
      by (simp add: resolve_period_def case_prod_beta)
  qed
qed

subsection \<open>Validation failures change nothing\<close>



section \<open>Lemmas on dispatch\<close>

text \<open>\<^verbatim>\<open>Job.run\<close> past the deadline: the clock is read once and nothing else happens.\<close>

lemma run_overdue:
  assumes "is_overdue (objs w i) (clock (environ w) 0)"
  shows "run i w = (Inr (RetValue CancelJobClass), w\<lparr>environ := snd (now (environ w))\<rparr>)"
  using assms by (simp add: run_def now_def Let_def)

text \<open>
  \<^verbatim>\<open>Job.run\<close> otherwise: the task is created, \<^verbatim>\<open>last_run\<close> is the second reading of the
  clock, and the next run is computed from there.
\<close>

lemma run_dispatch:
  assumes nm: "job_func_name (objs w i) = Some name" and g: "globals w name = Some f"
    and a: "args (objs w i) = Some a" and k: "kwargs (objs w i) = Some k"
    and hs: "has_scheduler (objs w i)"
    and nd: "\<not> is_overdue (objs w i) (clock (environ w) 0)"
    and s: "schedule_next_run ((objs w i)\<lparr>last_run := Some (clock (environ w) 1)\<rparr>)
              (snd (now (snd (now (environ w))))) = (x, j3, e3)"
  shows "run i w =
     (case x of
        Some err \<Rightarrow> Inl err
      | None \<Rightarrow>
          (case next_run j3 of
             None \<Rightarrow> if cancel_after j3 = None
                      then Inr (RetTask \<lparr>task_name = name, task_result = f a k, task_done = False\<rparr>)
                      else Inl TypeError
           | Some n \<Rightarrow>
               if is_overdue j3 n then Inr (RetValue CancelJobClass)
               else Inr (RetTask \<lparr>task_name = name, task_result = f a k, task_done = False\<rparr>)),
      w\<lparr>tasks := tasks w @ [\<lparr>task_name = name, task_result = f a k, task_done = False\<rparr>],
        objs := (objs w)(i := j3), environ := e3\<rparr>)"
proof -
  have c1: "clock (snd (now (environ w))) 0 = clock (environ w) 1"
    by (simp add: now_def)
  show ?thesis
    using nm g a k hs nd s
    by (simp add: run_def Let_def c1 now_def split: option.splits)
qed


text \<open>The next run of a job in seconds that has run, within the ranges of Python.\<close>

lemma seconds_job_next_run:
  assumes u: "unit j = Some ''seconds''" and l: "latest j = None" and sd: "start_day j = None"
    and at: "at_time j = None" and lr: "last_run j = Some l"
    and r: "- 999999999 * DAY \<le> interval j * SECOND" "interval j * SECOND < 1000000000 * DAY"
    and ir: "in_range (l + interval j * SECOND)"
  shows "schedule_next_run j e =
    (None, j\<lparr>period := Some (interval j * SECOND),
             next_run := Some (l + interval j * SECOND)\<rparr>, e)"
proof -
  let ?j1 = "j\<lparr>period := Some (interval j * SECOND)\<rparr>"
  let ?j2 = "j\<lparr>period := Some (interval j * SECOND),
      next_run := Some (l + interval j * SECOND)\<rparr>"
  have s12: "and_then (check_unit j e) resolve_period = (None, ?j1, e)"
    using r by (intro prelude_period[where u = "''seconds''"])
       (simp_all add: u l unit_duration_def)
  have s3: "base_instant ?j1 e = (None, ?j2, e)"
    using lr datetime_add_in_range[OF ir] by (simp add: base_instant_def)
  have s4: "weekday_anchor ?j2 e = (None, ?j2, e)" using sd by (simp add: weekday_anchor_def)
  have s5: "at_time_align ?j2 e = (None, ?j2, e)" using at by (simp add: at_time_align_def)
  have s6: "double_check ?j2 e = (None, ?j2, e)" using at by (simp add: double_check_def)
  show ?thesis unfolding schedule_next_run_def s12 and_then_None s3 s4 s5 s6 ..
qed

text \<open>\<^verbatim>\<open>Scheduler._run_job\<close> on the two kinds of result.\<close>

lemma run_job_cancels:
  assumes "fst (run i w) = Inr (RetValue CancelJobClass)"
  shows "jobs (snd (run_job i w)) = remove1 i (jobs (snd (run i w)))"
  using assms by (cases "run i w") (simp add: run_job_def is_cancel_def cancel_job_def)

lemma run_job_keeps_task:
  assumes "fst (run i w) = Inr (RetTask tk)"
  shows "run_job i w = (None, snd (run i w))"
  using assms by (cases "run i w") (simp add: run_job_def is_cancel_def)

text \<open>The example world with a deadline, spelled out.\<close>

lemma world_deadline_facts:
  "objs (world_deadline c) 0 = (seconds (Job 10 True))\<lparr>args := Some [], kwargs := Some [],
      job_func_name := Some ''work'', next_run := Some (20 * SECOND), cancel_after := Some c\<rparr>"
  "clock (environ (world_deadline c)) 0 = 20 * SECOND"
  "clock (environ (world_deadline c)) 1 = 20 * SECOND + 1"
  "clock (environ (world_deadline c)) (Suc 0) = 20 * SECOND + 1"
  "jobs (world_deadline c) = [0]" "tasks (world_deadline c) = []"
  "globals (world_deadline c) ''work'' = Some (\<lambda>a k. NoneValue)"
  by (simp_all add: world_deadline_def env_at_def work_globals_def)

section \<open>Properties of the next-run computation\<close>

subsection \<open>The base instant\<close>

text \<open>
  C2. Let \<open>n\<close> be the effective interval (the interval, or the integer drawn when
  \<open>latest\<close> is set) and \<open>d\<close> the duration of the unit, \<open>n * d\<close> being a duration Python
  can hold. The period is \<open>n * d\<close>. The base instant is \<open>last_run + n * d\<close> when
  \<open>last_run\<close> is set, the \<open>next_run\<close> already there when only that is set, and
  otherwise the clock's reading plus \<open>n * d\<close>; only the last case reads the clock,
  and the sums are taken inside the range of instants. For a job with neither anchor
  weekday nor time of day this is the whole computation. So \<^verbatim>\<open>every(2).seconds\<close> that
  last ran at \<open>T\<close> is next due at \<open>T\<close> plus two seconds, whatever the clock says.
\<close>

theorem base_instant_choice:
  assumes u: "unit j = Some u" and d: "unit_duration u = Some d"
    and n: "(latest j = None \<and> n = interval j) \<or>
            (\<exists>l. latest j = Some l \<and> interval j \<le> l \<and> n = fst (randint (interval j) l e))"
    and r: "- 999999999 * DAY \<le> n * d" "n * d < 1000000000 * DAY"
    and e1: "e1 = (case latest j of None \<Rightarrow> e | Some l \<Rightarrow> snd (randint (interval j) l e))"
  shows "and_then (check_unit j e) resolve_period = (None, j\<lparr>period := Some (n * d)\<rparr>, e1) \<and>
    (last_run j = Some T \<and> in_range (T + n * d) \<longrightarrow>
       base_instant (j\<lparr>period := Some (n * d)\<rparr>) e1 =
         (None, j\<lparr>period := Some (n * d), next_run := Some (T + n * d)\<rparr>, e1)) \<and>
    (last_run j = None \<and> next_run j = Some N \<longrightarrow>
       base_instant (j\<lparr>period := Some (n * d)\<rparr>) e1 =
         (None, j\<lparr>period := Some (n * d), next_run := Some N\<rparr>, e1)) \<and>
    (last_run j = None \<and> next_run j = None \<and> in_range (clock e1 0 + n * d) \<longrightarrow>
       base_instant (j\<lparr>period := Some (n * d)\<rparr>) e1 =
         (None, j\<lparr>period := Some (n * d), next_run := Some (clock e1 0 + n * d)\<rparr>,
          snd (now e1))) \<and>
    (start_day j = None \<and> at_time j = None \<longrightarrow>
       schedule_next_run j e = base_instant (j\<lparr>period := Some (n * d)\<rparr>) e1) \<and>
    (in_range (T + 2 * SECOND) \<longrightarrow>
       schedule_next_run ((seconds (Job 2 True))\<lparr>last_run := Some T\<rparr>) e =
         (None, (seconds (Job 2 True))\<lparr>last_run := Some T, period := Some (2 * SECOND),
                  next_run := Some (T + 2 * SECOND)\<rparr>, e))"
proof (intro conjI impI)
  show p: "and_then (check_unit j e) resolve_period = (None, j\<lparr>period := Some (n * d)\<rparr>, e1)"
    by (rule prelude_period[OF u d n r e1])
  {
    assume "last_run j = Some T \<and> in_range (T + n * d)"
    then show "base_instant (j\<lparr>period := Some (n * d)\<rparr>) e1 =
         (None, j\<lparr>period := Some (n * d), next_run := Some (T + n * d)\<rparr>, e1)"
      by (simp add: base_instant_def datetime_add_in_range)
  }
  {
    assume h: "last_run j = None \<and> next_run j = Some N"
    then have "j\<lparr>period := Some (n * d), next_run := Some N\<rparr> = j\<lparr>period := Some (n * d)\<rparr>"
      by (cases j) simp
    with h show "base_instant (j\<lparr>period := Some (n * d)\<rparr>) e1 =
         (None, j\<lparr>period := Some (n * d), next_run := Some N\<rparr>, e1)"
      by (simp add: base_instant_def)
  }
  {
    assume "last_run j = None \<and> next_run j = None \<and> in_range (clock e1 0 + n * d)"
    then show "base_instant (j\<lparr>period := Some (n * d)\<rparr>) e1 =
         (None, j\<lparr>period := Some (n * d), next_run := Some (clock e1 0 + n * d)\<rparr>,
          snd (now e1))"
      by (simp add: base_instant_def now_def datetime_add_in_range)
  }
  {
    assume h: "start_day j = None \<and> at_time j = None"
    have f: "reschedules (j\<lparr>period := Some (n * d)\<rparr>)
               (fst (snd (base_instant (j\<lparr>period := Some (n * d)\<rparr>) e1)))"
      by (rule base_instant_frame)
    obtain x j2 e2 where b: "base_instant (j\<lparr>period := Some (n * d)\<rparr>) e1 = (x, j2, e2)"
      by (metis prod_cases3)
    from f b h have s: "start_day j2 = None" "at_time j2 = None"
      by (auto simp: reschedules_def)
    have "schedule_next_run j e =
       and_then (and_then (and_then (x, j2, e2) weekday_anchor) at_time_align) double_check"
      by (simp add: schedule_next_run_def p b)
    also have "\<dots> = (x, j2, e2)"
      using s by (cases x) (simp_all add: weekday_anchor_def at_time_align_def double_check_def)
    finally show "schedule_next_run j e = base_instant (j\<lparr>period := Some (n * d)\<rparr>) e1"
      using b by simp
  }
  {
    assume "in_range (T + 2 * SECOND)"
    then show "schedule_next_run ((seconds (Job 2 True))\<lparr>last_run := Some T\<rparr>) e =
         (None, (seconds (Job 2 True))\<lparr>last_run := Some T, period := Some (2 * SECOND),
                  next_run := Some (T + 2 * SECOND)\<rparr>, e)"
      by (simp add: schedule_next_run_def seconds_def Job_def check_unit_def valid_units_def
            resolve_period_def timedelta_of_def unit_duration_def mk_timedelta_def
            base_instant_def datetime_add_in_range weekday_anchor_def at_time_align_def
            double_check_def SECOND_def DAY_def)
  }
qed

text \<open>
  \<^verbatim>\<open>every(2).seconds\<close> with the clock at second 1000: last run at second 5, it is
  due at second 7; never run and not scheduled, at second 1002; never run and
  scheduled for second 9, at second 9.
\<close>

theorem base_instant_choice_witness:
  "schedule_next_run ((seconds (Job 2 True))\<lparr>last_run := Some (5 * SECOND)\<rparr>)
     (env_at (1000 * SECOND)) =
     (None, (seconds (Job 2 True))\<lparr>last_run := Some (5 * SECOND), period := Some (2 * SECOND),
              next_run := Some (7 * SECOND)\<rparr>, env_at (1000 * SECOND)) \<and>
   schedule_next_run (seconds (Job 2 True)) (env_at (1000 * SECOND)) =
     (None, (seconds (Job 2 True))\<lparr>period := Some (2 * SECOND),
              next_run := Some (1002 * SECOND)\<rparr>, snd (now (env_at (1000 * SECOND)))) \<and>
   schedule_next_run ((seconds (Job 2 True))\<lparr>next_run := Some (9 * SECOND)\<rparr>)
     (env_at (1000 * SECOND)) =
     (None, (seconds (Job 2 True))\<lparr>period := Some (2 * SECOND),
              next_run := Some (9 * SECOND)\<rparr>, env_at (1000 * SECOND))"
proof -
  let ?E = "env_at (1000 * SECOND)"
  let ?A = "(seconds (Job 2 True))\<lparr>last_run := Some (5 * SECOND)\<rparr>"
  let ?B = "seconds (Job 2 True)"
  let ?C = "(seconds (Job 2 True))\<lparr>next_run := Some (9 * SECOND)\<rparr>"
  have d: "unit_duration ''seconds'' = Some SECOND" by (simp add: unit_duration_def)
  have r: "- 999999999 * DAY \<le> 2 * SECOND" "2 * SECOND < 1000000000 * DAY"
    by (simp_all add: DAY_def SECOND_def)
  have ir: "in_range (5 * SECOND + 2 * SECOND)" "in_range (clock ?E 0 + 2 * SECOND)"
    by (simp_all add: in_range_def DATETIME_MIN_def DATETIME_MAX_def DAY_def SECOND_def
          env_at_def)
  note TA = base_instant_choice[where j = ?A and u = "''seconds''" and d = SECOND and n = 2
      and e = ?E and ?e1.0 = ?E and T = "5 * SECOND" and N = 0, OF _ d _ r]
  note TB = base_instant_choice[where j = ?B and u = "''seconds''" and d = SECOND and n = 2
      and e = ?E and ?e1.0 = ?E and T = "5 * SECOND" and N = 0, OF _ d _ r]
  note TC = base_instant_choice[where j = ?C and u = "''seconds''" and d = SECOND and n = 2
      and e = ?E and ?e1.0 = ?E and T = "5 * SECOND" and N = "9 * SECOND", OF _ d _ r]
  have 1: "schedule_next_run ?A ?E =
     (None, ?A\<lparr>period := Some (2 * SECOND), next_run := Some (7 * SECOND)\<rparr>, ?E)"
    using TA ir by (simp add: seconds_def Job_def)
  have 2: "schedule_next_run ?B ?E =
     (None, ?B\<lparr>period := Some (2 * SECOND), next_run := Some (1002 * SECOND)\<rparr>,
      snd (now ?E))"
    using TB ir by (simp add: seconds_def Job_def env_at_def)
  have 3: "schedule_next_run ?C ?E =
     (None, ?B\<lparr>period := Some (2 * SECOND), next_run := Some (9 * SECOND)\<rparr>, ?E)"
    using TC by (simp add: seconds_def Job_def)
  show ?thesis using 1 2 3 by simp
qed

subsection \<open>The jitter bound\<close>

text \<open>The integer drawn lies between the two bounds.\<close>

lemma randint_range:
  assumes "a \<le> b"
  shows "a \<le> fst (randint a b e) \<and> fst (randint a b e) \<le> b"
proof -
  have "0 < nat (b - a + 1)" using assms by simp
  then have "entropy e 0 mod nat (b - a + 1) < nat (b - a + 1)" by simp
  then have "int (entropy e 0 mod nat (b - a + 1)) < b - a + 1" by linarith
  then show ?thesis by (simp add: randint_def)
qed

text \<open>
  C8. \<^verbatim>\<open>every(5).to(3).seconds.do(work)\<close>: \<^verbatim>\<open>to\<close> stores the bound unchecked, and the
  computation raises ScheduleError, which is not a ScheduleValueError, so that the job
  is not registered. The other validation of the same method, here with the unit
  missing, raises ScheduleValueError.
\<close>

theorem latest_below_interval_raises_base_class:
  "to (Job 5 True) 3 = (Job 5 True)\<lparr>latest := Some 3\<rparr> \<and>
   schedule_next_run (seconds (to (Job 5 True) 3)) (env_at 0) =
     (Some ScheduleError, seconds (to (Job 5 True) 3), env_at 0) \<and>
   \<not> exn_isinstance ScheduleError ScheduleValueError \<and>
   fst (do 0 ''work'' [] [] (world_with (seconds (to (Job 5 True) 3)) 0)) = Some ScheduleError \<and>
   jobs (snd (do 0 ''work'' [] [] (world_with (seconds (to (Job 5 True) 3)) 0))) = [] \<and>
   fst (schedule_next_run (to (Job 5 True) 3) (env_at 0)) = Some ScheduleValueError"
  by (simp add: seconds_def to_def Job_def schedule_next_run_def check_unit_def valid_units_def
        resolve_period_def do_def world_with_def)

subsection \<open>The time of day\<close>

text \<open>\<^verbatim>\<open>at("10:30")\<close> on a daily job stores 10:30:00.\<close>

lemma at_1030:
  "snd (at (days (Job k True)) ''10:30'') = (days (Job k True))
     \<lparr>at_time := Some \<lparr>hour = 10, minute = 30, second = 0, microsecond = 0\<rparr>\<rparr>"
  by (simp add: at_def days_def Job_def truthy_def at_dollar_def
        daily_pattern_def two_chars_def digits_def time_components_def py_int_def strip_def
        is_space_def digit_value_def mk_time_def)

text \<open>
  C4, as stated, fails. \<^verbatim>\<open>every(2).days.at("10:30")\<close>, first computed at 09:00 of day 0:
  \<open>last_run\<close> is unset and 10:30 is still to come today, the period is two days, and
  the job is due at 10:30 of day 2, not one period earlier: line 666 shifts a daily
  job only when its interval is 1.
\<close>

theorem daily_interval_2_counterexample:
  "time_less (time_of (clock (env_at (9 * HOUR)) 1))
     \<lparr>hour = 10, minute = 30, second = 0, microsecond = 0\<rparr> \<and>
   last_run every_2_days_at_1030 = None \<and>
   period (fst (snd (schedule_next_run every_2_days_at_1030 (env_at (9 * HOUR)))))
     = Some (2 * DAY) \<and>
   next_run (fst (snd (schedule_next_run every_2_days_at_1030 (env_at (9 * HOUR)))))
     = Some (2 * DAY + 10 * HOUR + 30 * MINUTE) \<and>
   2 * DAY + 10 * HOUR + 30 * MINUTE \<noteq> (2 * DAY + 10 * HOUR + 30 * MINUTE) - 2 * DAY"
  unfolding every_2_days_at_1030_def at_1030
  by (simp add: days_def Job_def schedule_next_run_def
        check_unit_def valid_units_def resolve_period_def timedelta_of_def unit_duration_def
        mk_timedelta_def base_instant_def datetime_add_def DATETIME_MIN_def DATETIME_MAX_def
        now_def env_at_def weekday_anchor_def at_time_align_def replace_def date_start_def
        hour_of_def hour_kw_def minute_kw_def overran_def catch_up_def time_less_def
        time_of_def minute_of_def second_of_def microsecond_of_def double_check_def
        HOUR_def MINUTE_def DAY_def SECOND_def)

text \<open>The fields of an instant are in range, so that \<^verbatim>\<open>replace\<close> succeeds.\<close>

lemma hour_of_range: "0 \<le> hour_of n \<and> hour_of n \<le> 23"
  by (simp add: hour_of_def HOUR_def DAY_def pos_imp_zdiv_nonneg_iff)

lemma minute_of_range: "0 \<le> minute_of n \<and> minute_of n \<le> 59"
  by (simp add: minute_of_def MINUTE_def HOUR_def pos_imp_zdiv_nonneg_iff)

lemma replace_hourly:
  "0 \<le> m \<Longrightarrow> m \<le> 59 \<Longrightarrow> 0 \<le> s \<Longrightarrow> s \<le> 59 \<Longrightarrow>
   replace n None (Some m) (Some s) (Some 0)
     = Some (date_start n + hour_of n * HOUR + m * MINUTE + s * SECOND)"
  using hour_of_range[of n] by (simp add: replace_def)

lemma replace_minutely:
  "0 \<le> s \<Longrightarrow> s \<le> 59 \<Longrightarrow>
   replace n None None (Some s) (Some 0)
     = Some (date_start n + hour_of n * HOUR + minute_of n * MINUTE + s * SECOND)"
  using hour_of_range[of n] minute_of_range[of n] by (simp add: replace_def)

text \<open>Line 661, written out.\<close>

lemma overran_iff:
  "overran j n p = (last_run j = None \<or> (\<exists>l. last_run j = Some l \<and> p < n - l))"
  by (simp add: overran_def split: option.splits)

text \<open>
  C4, amended to the jobs whose period is one unit. Let the time of day be a valid
  one, \<open>n\<close> the \<open>next_run\<close> the stage finds and \<open>n'\<close> what overwriting its fields gives
  (hour, minute and second for a daily or weekly job; minute and second for an hourly
  job; the second for a minutely job; microsecond 0 always). If \<open>last_run\<close> is unset or
  \<open>n'\<close> is more than one period after it, and the time of day is still to come at
  the clock's reading (later today for a daily job of interval 1, later in this hour
  for an hourly job, later in this minute for a minutely job), then \<open>next_run\<close> becomes
  \<open>n'\<close> minus the period, the period being one day, one hour or one minute, and
  the clock has been read once. A daily job whose interval is not 1 and a weekly
  job with an anchor weekday get \<open>n'\<close> itself.
\<close>

theorem at_time_shift_back_one_period:
  assumes a: "at_time j = Some a" and n: "next_run j = Some n" and p: "period j = Some p"
    and h: "0 \<le> hour a" "hour a \<le> 23" and m: "0 \<le> minute a" "minute a \<le> 59"
    and s: "0 \<le> second a" "second a \<le> 59"
  shows
   "(unit j = Some ''days'' \<and> interval j = 1 \<and> p = DAY \<and>
     n' = date_start n + hour a * HOUR + minute a * MINUTE + second a * SECOND \<and>
     (last_run j = None \<or> (\<exists>l. last_run j = Some l \<and> p < n' - l)) \<and>
     time_less (time_of (clock e 0)) a \<and> in_range (n' - p)
     \<longrightarrow> at_time_align j e = (None, j\<lparr>next_run := Some (n' - p)\<rparr>, snd (now e))) \<and>
    (unit j = Some ''hours'' \<and> start_day j = None \<and> p = HOUR \<and>
     n' = date_start n + hour_of n * HOUR + minute a * MINUTE + second a * SECOND \<and>
     (last_run j = None \<or> (\<exists>l. last_run j = Some l \<and> p < n' - l)) \<and>
     (minute_of (clock e 0) < minute a \<or>
      (minute_of (clock e 0) = minute a \<and> second_of (clock e 0) < second a)) \<and>
     in_range (n' - p)
     \<longrightarrow> at_time_align j e = (None, j\<lparr>next_run := Some (n' - p)\<rparr>, snd (now e))) \<and>
    (unit j = Some ''minutes'' \<and> start_day j = None \<and> p = MINUTE \<and>
     n' = date_start n + hour_of n * HOUR + minute_of n * MINUTE + second a * SECOND \<and>
     (last_run j = None \<or> (\<exists>l. last_run j = Some l \<and> p < n' - l)) \<and>
     second_of (clock e 0) < second a \<and> in_range (n' - p)
     \<longrightarrow> at_time_align j e = (None, j\<lparr>next_run := Some (n' - p)\<rparr>, snd (now e))) \<and>
    (((unit j = Some ''days'' \<and> interval j \<noteq> 1) \<or> (unit j = Some ''weeks'' \<and> start_day j \<noteq> None)) \<and>
     n' = date_start n + hour a * HOUR + minute a * MINUTE + second a * SECOND
     \<longrightarrow> at_time_align j e =
          (None, j\<lparr>next_run := Some n'\<rparr>,
           if last_run j = None \<or> (\<exists>l. last_run j = Some l \<and> p < n' - l)
           then snd (now e) else e))"
proof (intro conjI impI)
  assume H: "unit j = Some ''days'' \<and> interval j = 1 \<and> p = DAY \<and>
     n' = date_start n + hour a * HOUR + minute a * MINUTE + second a * SECOND \<and>
     (last_run j = None \<or> (\<exists>l. last_run j = Some l \<and> p < n' - l)) \<and>
     time_less (time_of (clock e 0)) a \<and> in_range (n' - p)"
  have r: "replace n (hour_kw j a) (minute_kw j a) (Some (second a)) (Some 0) = Some n'"
    using H h m s by (simp add: hour_kw_def minute_kw_def replace_time_of_day)
  have o: "overran j n' p" unfolding overran_iff using H by blast
  have c: "catch_up j a (clock e 0) = Some DAY" using H by (simp add: catch_up_def)
  have d: "datetime_add n' (- DAY) = Inr (n' - p)"
    using H by (simp add: datetime_add_def in_range_def)
  have u: "unit j = Some ''days'' \<or> unit j = Some ''hours'' \<or> unit j = Some ''minutes''"
    using H by simp
  show "at_time_align j e = (None, j\<lparr>next_run := Some (n' - p)\<rparr>, snd (now e))"
    using u by (simp add: at_time_align_def a n p r o c d now_def)
next
  assume H: "unit j = Some ''hours'' \<and> start_day j = None \<and> p = HOUR \<and>
     n' = date_start n + hour_of n * HOUR + minute a * MINUTE + second a * SECOND \<and>
     (last_run j = None \<or> (\<exists>l. last_run j = Some l \<and> p < n' - l)) \<and>
     (minute_of (clock e 0) < minute a \<or>
      (minute_of (clock e 0) = minute a \<and> second_of (clock e 0) < second a)) \<and>
     in_range (n' - p)"
  have r: "replace n (hour_kw j a) (minute_kw j a) (Some (second a)) (Some 0) = Some n'"
    using H m s by (simp add: hour_kw_def minute_kw_def replace_hourly)
  have o: "overran j n' p" unfolding overran_iff using H by blast
  have c: "catch_up j a (clock e 0) = Some HOUR" using H by (auto simp add: catch_up_def)
  have d: "datetime_add n' (- HOUR) = Inr (n' - p)"
    using H by (simp add: datetime_add_def in_range_def)
  have u: "unit j = Some ''days'' \<or> unit j = Some ''hours'' \<or> unit j = Some ''minutes''"
    using H by simp
  show "at_time_align j e = (None, j\<lparr>next_run := Some (n' - p)\<rparr>, snd (now e))"
    using u by (simp add: at_time_align_def a n p r o c d now_def)
next
  assume H: "unit j = Some ''minutes'' \<and> start_day j = None \<and> p = MINUTE \<and>
     n' = date_start n + hour_of n * HOUR + minute_of n * MINUTE + second a * SECOND \<and>
     (last_run j = None \<or> (\<exists>l. last_run j = Some l \<and> p < n' - l)) \<and>
     second_of (clock e 0) < second a \<and> in_range (n' - p)"
  have r: "replace n (hour_kw j a) (minute_kw j a) (Some (second a)) (Some 0) = Some n'"
    using H s by (simp add: hour_kw_def minute_kw_def replace_minutely)
  have o: "overran j n' p" unfolding overran_iff using H by blast
  have c: "catch_up j a (clock e 0) = Some MINUTE" using H by (simp add: catch_up_def)
  have d: "datetime_add n' (- MINUTE) = Inr (n' - p)"
    using H by (simp add: datetime_add_def in_range_def)
  have u: "unit j = Some ''days'' \<or> unit j = Some ''hours'' \<or> unit j = Some ''minutes''"
    using H by simp
  show "at_time_align j e = (None, j\<lparr>next_run := Some (n' - p)\<rparr>, snd (now e))"
    using u by (simp add: at_time_align_def a n p r o c d now_def)
next
  assume H: "((unit j = Some ''days'' \<and> interval j \<noteq> 1) \<or>
      (unit j = Some ''weeks'' \<and> start_day j \<noteq> None)) \<and>
     n' = date_start n + hour a * HOUR + minute a * MINUTE + second a * SECOND"
  have r: "replace n (hour_kw j a) (minute_kw j a) (Some (second a)) (Some 0) = Some n'"
    using H h m s by (auto simp add: hour_kw_def minute_kw_def replace_time_of_day)
  have c: "catch_up j a (clock e 0) = None" using H by (auto simp add: catch_up_def)
  have u: "\<not> (unit j \<notin> {Some ''days'', Some ''hours'', Some ''minutes''} \<and> start_day j = None)"
    using H by auto
  show "at_time_align j e =
          (None, j\<lparr>next_run := Some n'\<rparr>,
           if last_run j = None \<or> (\<exists>l. last_run j = Some l \<and> p < n' - l)
           then snd (now e) else e)"
    using u by (simp add: at_time_align_def a n p r c now_def overran_iff[symmetric])
qed

text \<open>
  At 09:00 of day 0: \<^verbatim>\<open>every().day.at("10:30")\<close> is first due at 10:30 of day 0, through
  the whole computation; an hourly job at minute 30 moves from 10:30 to 09:30, a
  minutely job at second 30 from 09:01:30 to 09:00:30, and the job of every second
  day stays at 10:30 of day 2.
\<close>

theorem at_time_shift_back_one_period_witness:
  "schedule_next_run every_day_at_1030 (env_at (9 * HOUR)) =
     (None, every_day_at_1030\<lparr>period := Some DAY, next_run := Some (10 * HOUR + 30 * MINUTE)\<rparr>,
      snd (now (snd (now (env_at (9 * HOUR)))))) \<and>
   at_time_align
     ((hours (Job 1 True))\<lparr>at_time := Some \<lparr>hour = 0, minute = 30, second = 0, microsecond = 0\<rparr>,
        period := Some HOUR, next_run := Some (10 * HOUR)\<rparr>) (env_at (9 * HOUR)) =
     (None,
      (hours (Job 1 True))\<lparr>at_time := Some \<lparr>hour = 0, minute = 30, second = 0, microsecond = 0\<rparr>,
        period := Some HOUR, next_run := Some (9 * HOUR + 30 * MINUTE)\<rparr>,
      snd (now (env_at (9 * HOUR)))) \<and>
   at_time_align
     ((minutes (Job 1 True))\<lparr>at_time := Some \<lparr>hour = 0, minute = 0, second = 30, microsecond = 0\<rparr>,
        period := Some MINUTE, next_run := Some (9 * HOUR + MINUTE)\<rparr>) (env_at (9 * HOUR)) =
     (None,
      (minutes (Job 1 True))\<lparr>at_time := Some \<lparr>hour = 0, minute = 0, second = 30, microsecond = 0\<rparr>,
        period := Some MINUTE, next_run := Some (9 * HOUR + 30 * SECOND)\<rparr>,
      snd (now (env_at (9 * HOUR)))) \<and>
   at_time_align
     (every_2_days_at_1030\<lparr>period := Some (2 * DAY), next_run := Some (2 * DAY + 9 * HOUR)\<rparr>)
     (env_at (9 * HOUR)) =
     (None,
      every_2_days_at_1030\<lparr>period := Some (2 * DAY),
        next_run := Some (2 * DAY + 10 * HOUR + 30 * MINUTE)\<rparr>,
      snd (now (env_at (9 * HOUR))))"
proof -
  let ?a = "\<lparr>hour = 10, minute = 30, second = 0, microsecond = 0\<rparr>"
  let ?e = "env_at (9 * HOUR)"
  let ?e1 = "snd (now ?e)"
  let ?jd = "every_day_at_1030\<lparr>period := Some DAY, next_run := Some (9 * HOUR + 1 * DAY)\<rparr>"
  have jd: "every_day_at_1030 = (days (Job 1 True))\<lparr>at_time := Some ?a\<rparr>"
    unfolding every_day_at_1030_def at_1030 ..
  have ds: "date_start (9 * HOUR + 1 * DAY) = DAY" "date_start (10 * HOUR) = 0"
    "date_start (9 * HOUR + MINUTE) = 0" "date_start (2 * DAY + 9 * HOUR) = 2 * DAY"
    "hour_of (10 * HOUR) = 10" "hour_of (9 * HOUR + MINUTE) = 9"
    "minute_of (9 * HOUR + MINUTE) = 1"
    by (simp_all add: date_start_def hour_of_def minute_of_def DAY_def HOUR_def MINUTE_def
          SECOND_def)
  have ck: "clock ?e1 0 = 9 * HOUR + 1" "clock ?e 0 = 9 * HOUR"
    by (simp_all add: now_def env_at_def)
  have tl: "time_less (time_of (9 * HOUR + 1)) ?a" "minute_of (9 * HOUR) = 0"
    "second_of (9 * HOUR) = 0"
    by (simp_all add: time_less_def time_of_def hour_of_def minute_of_def second_of_def
          microsecond_of_def DAY_def HOUR_def MINUTE_def SECOND_def)
  have s12: "and_then (check_unit every_day_at_1030 ?e) resolve_period =
      (None, every_day_at_1030\<lparr>period := Some (1 * DAY)\<rparr>, ?e)"
    by (rule prelude_period[where u = "''days''"])
       (simp_all add: jd days_def Job_def unit_duration_def DAY_def)
  have s3: "base_instant (every_day_at_1030\<lparr>period := Some (1 * DAY)\<rparr>) ?e = (None, ?jd, ?e1)"
    by (simp add: base_instant_def jd days_def Job_def now_def env_at_def datetime_add_def
          DATETIME_MIN_def DATETIME_MAX_def DAY_def HOUR_def)
  have s4: "weekday_anchor ?jd ?e1 = (None, ?jd, ?e1)"
    by (simp add: weekday_anchor_def jd days_def Job_def)
  have hd: "unit ?jd = Some ''days'' \<and> interval ?jd = 1 \<and> DAY = DAY \<and>
     DAY + 10 * HOUR + 30 * MINUTE
       = date_start (9 * HOUR + 1 * DAY) + hour ?a * HOUR + minute ?a * MINUTE + second ?a * SECOND \<and>
     (last_run ?jd = None \<or> (\<exists>l. last_run ?jd = Some l \<and> DAY < DAY + 10 * HOUR + 30 * MINUTE - l)) \<and>
     time_less (time_of (clock ?e1 0)) ?a \<and> in_range (DAY + 10 * HOUR + 30 * MINUTE - DAY)"
    unfolding ck ds using tl(1)
    by (simp add: jd days_def Job_def in_range_def DATETIME_MIN_def DATETIME_MAX_def DAY_def
          HOUR_def MINUTE_def)
  have s5: "at_time_align ?jd ?e1 =
      (None, ?jd\<lparr>next_run := Some (DAY + 10 * HOUR + 30 * MINUTE - DAY)\<rparr>, snd (now ?e1))"
    by (rule at_time_shift_back_one_period[where j = ?jd and a = ?a and n = "9 * HOUR + 1 * DAY"
          and p = DAY and n' = "DAY + 10 * HOUR + 30 * MINUTE" and e = ?e1,
          THEN conjunct1, THEN mp, OF _ _ _ _ _ _ _ _ _ hd])
       (simp_all add: jd days_def Job_def)
  have s6: "double_check (?jd\<lparr>next_run := Some (DAY + 10 * HOUR + 30 * MINUTE - DAY)\<rparr>)
      (snd (now ?e1)) =
      (None, ?jd\<lparr>next_run := Some (DAY + 10 * HOUR + 30 * MINUTE - DAY)\<rparr>, snd (now ?e1))"
    by (simp add: double_check_def jd days_def Job_def)
  have A: "schedule_next_run every_day_at_1030 ?e =
     (None, every_day_at_1030\<lparr>period := Some DAY, next_run := Some (10 * HOUR + 30 * MINUTE)\<rparr>,
      snd (now ?e1))"
    unfolding schedule_next_run_def s12 and_then_None s3 s4 s5 s6 by simp
  let ?ah = "\<lparr>hour = 0, minute = 30, second = 0, microsecond = 0\<rparr>"
  let ?jh = "(hours (Job 1 True))\<lparr>at_time := Some ?ah, period := Some HOUR,
      next_run := Some (10 * HOUR)\<rparr>"
  have hh: "unit ?jh = Some ''hours'' \<and> start_day ?jh = None \<and> HOUR = HOUR \<and>
     10 * HOUR + 30 * MINUTE
       = date_start (10 * HOUR) + hour_of (10 * HOUR) * HOUR + minute ?ah * MINUTE
         + second ?ah * SECOND \<and>
     (last_run ?jh = None \<or> (\<exists>l. last_run ?jh = Some l \<and> HOUR < 10 * HOUR + 30 * MINUTE - l)) \<and>
     (minute_of (clock ?e 0) < minute ?ah \<or>
      (minute_of (clock ?e 0) = minute ?ah \<and> second_of (clock ?e 0) < second ?ah)) \<and>
     in_range (10 * HOUR + 30 * MINUTE - HOUR)"
    unfolding ck ds tl
    by (simp add: hours_def Job_def in_range_def DATETIME_MIN_def DATETIME_MAX_def DAY_def
          HOUR_def MINUTE_def)
  have B: "at_time_align ?jh ?e =
      (None, ?jh\<lparr>next_run := Some (10 * HOUR + 30 * MINUTE - HOUR)\<rparr>, ?e1)"
    by (rule at_time_shift_back_one_period[where j = ?jh and a = ?ah and n = "10 * HOUR"
          and p = HOUR and n' = "10 * HOUR + 30 * MINUTE" and e = ?e,
          THEN conjunct2, THEN conjunct1, THEN mp, OF _ _ _ _ _ _ _ _ _ hh])
       (simp_all add: hours_def Job_def)
  let ?am = "\<lparr>hour = 0, minute = 0, second = 30, microsecond = 0\<rparr>"
  let ?jm = "(minutes (Job 1 True))\<lparr>at_time := Some ?am, period := Some MINUTE,
      next_run := Some (9 * HOUR + MINUTE)\<rparr>"
  have hm: "unit ?jm = Some ''minutes'' \<and> start_day ?jm = None \<and> MINUTE = MINUTE \<and>
     9 * HOUR + MINUTE + 30 * SECOND
       = date_start (9 * HOUR + MINUTE) + hour_of (9 * HOUR + MINUTE) * HOUR
         + minute_of (9 * HOUR + MINUTE) * MINUTE + second ?am * SECOND \<and>
     (last_run ?jm = None \<or>
      (\<exists>l. last_run ?jm = Some l \<and> MINUTE < 9 * HOUR + MINUTE + 30 * SECOND - l)) \<and>
     second_of (clock ?e 0) < second ?am \<and>
     in_range (9 * HOUR + MINUTE + 30 * SECOND - MINUTE)"
    unfolding ck ds tl
    by (simp add: minutes_def Job_def in_range_def DATETIME_MIN_def DATETIME_MAX_def DAY_def
          HOUR_def MINUTE_def SECOND_def)
  have C: "at_time_align ?jm ?e =
      (None, ?jm\<lparr>next_run := Some (9 * HOUR + MINUTE + 30 * SECOND - MINUTE)\<rparr>, ?e1)"
    by (rule at_time_shift_back_one_period[where j = ?jm and a = ?am and n = "9 * HOUR + MINUTE"
          and p = MINUTE and n' = "9 * HOUR + MINUTE + 30 * SECOND" and e = ?e,
          THEN conjunct2, THEN conjunct2, THEN conjunct1, THEN mp, OF _ _ _ _ _ _ _ _ _ hm])
       (simp_all add: minutes_def Job_def)
  let ?j2 = "every_2_days_at_1030\<lparr>period := Some (2 * DAY), next_run := Some (2 * DAY + 9 * HOUR)\<rparr>"
  have j2: "every_2_days_at_1030 = (days (Job 2 True))\<lparr>at_time := Some ?a\<rparr>"
    unfolding every_2_days_at_1030_def at_1030 ..
  have h2: "((unit ?j2 = Some ''days'' \<and> interval ?j2 \<noteq> 1) \<or>
      (unit ?j2 = Some ''weeks'' \<and> start_day ?j2 \<noteq> None)) \<and>
     2 * DAY + 10 * HOUR + 30 * MINUTE
       = date_start (2 * DAY + 9 * HOUR) + hour ?a * HOUR + minute ?a * MINUTE + second ?a * SECOND"
    unfolding ds by (simp add: j2 days_def Job_def)
  have D: "at_time_align ?j2 ?e =
      (None, ?j2\<lparr>next_run := Some (2 * DAY + 10 * HOUR + 30 * MINUTE)\<rparr>, ?e1)"
    using at_time_shift_back_one_period[where j = ?j2 and a = ?a and n = "2 * DAY + 9 * HOUR"
          and p = "2 * DAY" and n' = "2 * DAY + 10 * HOUR + 30 * MINUTE" and e = ?e,
          THEN conjunct2, THEN conjunct2, THEN conjunct2, THEN mp, OF _ _ _ _ _ _ _ _ _ h2]
    by (simp add: j2 days_def Job_def)
  show ?thesis using A B C D by simp
qed

subsection \<open>The weekday anchor\<close>

text \<open>What the builders of \<^verbatim>\<open>every().monday.at("09:00")\<close> store.\<close>

lemma monday_at_9_eq:
  "monday_at_9 = (Job 1 True)\<lparr>unit := Some ''weeks'', start_day := Some ''monday'',
     at_time := Some \<lparr>hour = 9, minute = 0, second = 0, microsecond = 0\<rparr>\<rparr>"
  by (simp add: monday_at_9_def monday_def weekday_property_def weeks_def at_def Job_def
        truthy_def at_dollar_def daily_pattern_def two_chars_def digits_def
        time_components_def py_int_def strip_def is_space_def digit_value_def mk_time_def)

lemma index_of_weekdays_range:
  "d \<in> set weekdays \<Longrightarrow> 0 \<le> index_of weekdays d \<and> index_of weekdays d < 7"
  by (auto simp: weekdays_def)

text \<open>
  The anchor step, for any weekday, next run and period; the exception is the one of
  a duration or an instant that Python cannot hold.
\<close>

lemma anchor_mechanism:
  assumes "start_day j = Some d" "d \<in> set weekdays" "unit j = Some ''weeks''"
    "next_run j = Some n" "period j = Some p"
  shows "\<exists>k. 1 \<le> k \<and> k \<le> 7 \<and>
           k = (if index_of weekdays d - weekday n \<le> 0
                then index_of weekdays d - weekday n + 7 else index_of weekdays d - weekday n) \<and>
           weekday (n + k * DAY) = index_of weekdays d \<and>
           weekday_anchor j e =
             (if mk_timedelta (k * DAY - p) = Inr (k * DAY - p) \<and> in_range (n + (k * DAY - p))
              then (None, j\<lparr>next_run := Some (n + (k * DAY - p))\<rparr>, e)
              else (Some OverflowError, j, e))"
proof -
  let ?k = "if index_of weekdays d - weekday n \<le> 0
            then index_of weekdays d - weekday n + 7 else index_of weekdays d - weekday n"
  have r: "0 \<le> index_of weekdays d \<and> index_of weekdays d < 7"
    using assms(2) by (rule index_of_weekdays_range)
  have w: "0 \<le> weekday n \<and> weekday n < 7" by (rule weekday_range)
  have 1: "1 \<le> ?k \<and> ?k \<le> 7" using r w by auto
  have 2: "weekday (n + ?k * DAY) = index_of weekdays d"
    unfolding weekday_add_days using r w by (auto simp: mod_simps)
  have m: "mk_timedelta (?k * DAY - p) = Inr (?k * DAY - p) \<or>
           mk_timedelta (?k * DAY - p) = Inl OverflowError"
    by (simp add: mk_timedelta_def)
  have a: "in_range (n + (?k * DAY - p)) \<Longrightarrow>
      datetime_add n (?k * DAY - p) = Inr (n + (?k * DAY - p))"
    by (rule datetime_add_in_range)
  have b: "\<not> in_range (n + (?k * DAY - p)) \<Longrightarrow>
      datetime_add n (?k * DAY - p) = Inl OverflowError"
    by (rule datetime_add_out_of_range)
  have 3: "weekday_anchor j e =
      (if mk_timedelta (?k * DAY - p) = Inr (?k * DAY - p) \<and> in_range (n + (?k * DAY - p))
       then (None, j\<lparr>next_run := Some (n + (?k * DAY - p))\<rparr>, e)
       else (Some OverflowError, j, e))"
  proof (cases "mk_timedelta (?k * DAY - p) = Inr (?k * DAY - p)")
    case True
    show ?thesis
    proof (cases "in_range (n + (?k * DAY - p))")
      case t: True
      show ?thesis using assms True t a[OF t]
        by (simp add: weekday_anchor_def Let_def)
    next
      case f: False
      show ?thesis using assms True f b[OF f]
        by (simp add: weekday_anchor_def Let_def)
    qed
  next
    case False
    then have "mk_timedelta (?k * DAY - p) = Inl OverflowError" using m by blast
    then show ?thesis using assms False
      by (simp add: weekday_anchor_def Let_def)
  qed
  show ?thesis using 1 2 3 by blast
qed

text \<open>
  The whole computation for a weekly job on Monday at 09:00 that has never run. The
  clock is read three times: for the base instant, for the time of day and for the
  last check.
\<close>

lemma monday_job_next_run:
  assumes u: "unit j = Some ''weeks''" and d: "start_day j = Some ''monday''"
    and a: "at_time j = Some \<lparr>hour = 9, minute = 0, second = 0, microsecond = 0\<rparr>"
    and l: "latest j = None" and i: "interval j = 1"
    and lr: "last_run j = None" and nr: "next_run j = None"
    and r0: "in_range (clock e 0)" and r1: "in_range (clock e 0 + WEEK)"
    and r2: "date_start (clock e 0)
               + (if weekday (clock e 0) = 0 then 7 else 7 - weekday (clock e 0)) * DAY
               + 9 * HOUR - clock e 2 \<ge> 7 * DAY \<longrightarrow>
             in_range (date_start (clock e 0)
               + (if weekday (clock e 0) = 0 then 7 else 7 - weekday (clock e 0)) * DAY
               + 9 * HOUR - WEEK)"
  shows "schedule_next_run j e =
    (let k = (if weekday (clock e 0) = 0 then 7 else 7 - weekday (clock e 0));
         n = date_start (clock e 0) + k * DAY + 9 * HOUR
     in (None,
         j\<lparr>period := Some WEEK,
           next_run := Some (if n - clock e 2 \<ge> 7 * DAY then n - WEEK else n)\<rparr>,
         snd (now (snd (now (snd (now e)))))))"
proof -
  let ?t = "clock e 0"
  let ?k = "if weekday ?t = 0 then 7 else 7 - weekday ?t"
  let ?e1 = "snd (now e)"
  let ?e2 = "snd (now ?e1)"
  let ?e3 = "snd (now ?e2)"
  let ?j1 = "j\<lparr>period := Some WEEK\<rparr>"
  let ?j2 = "j\<lparr>period := Some WEEK, next_run := Some (?t + WEEK)\<rparr>"
  let ?j3 = "j\<lparr>period := Some WEEK, next_run := Some (?t + ?k * DAY)\<rparr>"
  let ?n = "date_start ?t + ?k * DAY + 9 * HOUR"
  let ?j4 = "j\<lparr>period := Some WEEK, next_run := Some ?n\<rparr>"
  have week: "WEEK = 7 * DAY" by (simp add: WEEK_def DAY_def)
  have dpos: "0 < DAY" by (simp add: DAY_def)
  have kr: "1 \<le> ?k \<and> ?k \<le> 7" using weekday_range[of ?t] by auto
  have s1: "check_unit j e = (None, j, e)"
    using u by (simp add: check_unit_def valid_units_def)
  have td: "timedelta_of ''weeks'' 1 = Inr WEEK"
    by (simp add: timedelta_of_def unit_duration_def mk_timedelta_def WEEK_def DAY_def)
  have s2: "resolve_period j e = (None, ?j1, e)"
    using u l i td by (simp add: resolve_period_def)
  have s3: "base_instant ?j1 e = (None, ?j2, ?e1)"
    using lr nr datetime_add_in_range[OF r1] by (simp add: base_instant_def now_def)
  have wd: "weekday (?t + 7 * DAY) = weekday ?t"
    unfolding weekday_add_days using weekday_range[of ?t] by simp
  have mt: "mk_timedelta (?k * DAY - WEEK) = Inr (?k * DAY - WEEK)"
  proof (rule mk_timedelta_small)
    have "- 6 * DAY \<le> ?k * DAY - WEEK" unfolding week using kr dpos by (simp add: DAY_def)
    then show "- 999999999 * DAY \<le> ?k * DAY - WEEK" using dpos by (simp add: DAY_def)
    have "?k * DAY - WEEK \<le> 0" unfolding week using kr dpos by (simp add: DAY_def)
    then show "?k * DAY - WEEK < 1000000000 * DAY" using dpos by (simp add: DAY_def)
  qed
  have ir: "in_range (?t + WEEK + (?k * DAY - WEEK))"
  proof -
    have "?t \<le> ?t + ?k * DAY" using kr dpos by (simp add: DAY_def)
    moreover have "?t + ?k * DAY \<le> ?t + WEEK" unfolding week using kr dpos by (simp add: DAY_def)
    ultimately have "in_range (?t + ?k * DAY)" using r0 r1 by (simp add: in_range_def)
    then show ?thesis by (simp add: algebra_simps)
  qed
  have ix: "index_of weekdays ''monday'' = 0" by (simp add: weekdays_def)
  have wk: "weekday (?t + WEEK) = weekday ?t" unfolding week by (rule wd)
  have kd: "(if index_of weekdays ''monday'' - weekday (?t + WEEK) \<le> 0
             then index_of weekdays ''monday'' - weekday (?t + WEEK) + 7
             else index_of weekdays ''monday'' - weekday (?t + WEEK)) = ?k"
    unfolding ix wk using weekday_range[of ?t] by auto
  have am: "start_day ?j2 = Some ''monday''" "''monday'' \<in> set weekdays"
    "unit ?j2 = Some ''weeks''" "next_run ?j2 = Some (?t + WEEK)" "period ?j2 = Some WEEK"
    using u d by (simp_all add: weekdays_def)
  obtain k where k: "k = (if index_of weekdays ''monday'' - weekday (?t + WEEK) \<le> 0
             then index_of weekdays ''monday'' - weekday (?t + WEEK) + 7
             else index_of weekdays ''monday'' - weekday (?t + WEEK))"
    and wa: "weekday_anchor ?j2 ?e1 =
             (if mk_timedelta (k * DAY - WEEK) = Inr (k * DAY - WEEK) \<and>
                 in_range (?t + WEEK + (k * DAY - WEEK))
              then (None, ?j2\<lparr>next_run := Some (?t + WEEK + (k * DAY - WEEK))\<rparr>, ?e1)
              else (Some OverflowError, ?j2, ?e1))"
    using anchor_mechanism[OF am, of ?e1] by blast
  have kk: "k = ?k" using k kd by simp
  have s4: "weekday_anchor ?j2 ?e1 = (None, ?j3, ?e1)"
    using wa mt ir unfolding kk by simp
  have rp: "replace (?t + ?k * DAY) (Some 9) (Some 0) (Some 0) (Some 0) = Some ?n"
    by (simp add: replace_time_of_day date_start_add_days)
  have s5: "at_time_align ?j3 ?e1 = (None, ?j4, ?e2)"
    using u d a lr rp
    by (simp add: at_time_align_def hour_kw_def minute_kw_def overran_def catch_up_def now_def)
  have db: "?n - clock e 2 \<ge> 7 * DAY \<Longrightarrow> datetime_add ?n (- WEEK) = Inr (?n - WEEK)"
    using r2 datetime_add_in_range[of ?n "- WEEK"] by simp
  have s6: "double_check ?j4 ?e2 =
      (None, j\<lparr>period := Some WEEK,
           next_run := Some (if ?n - clock e 2 \<ge> 7 * DAY then ?n - WEEK else ?n)\<rparr>, ?e3)"
  proof (cases "?n - clock e 2 \<ge> 7 * DAY")
    case True
    then show ?thesis using d a db[OF True]
      by (simp add: double_check_def days_of_ge_7 now_def numeral_2_eq_2)
  next
    case False
    then show ?thesis using d a
      by (simp add: double_check_def days_of_ge_7 now_def numeral_2_eq_2)
  qed
  show ?thesis
    unfolding schedule_next_run_def s1 and_then_None s2 s3 s4 s5 s6 Let_def ..
qed

lemma do_monday_at_9:
  assumes "objs w i = monday_at_9"
    and r0: "in_range (clock (environ w) 0)" and r1: "in_range (clock (environ w) 0 + WEEK)"
    and r2: "date_start (clock (environ w) 0)
               + (if weekday (clock (environ w) 0) = 0 then 7
                  else 7 - weekday (clock (environ w) 0)) * DAY
               + 9 * HOUR - clock (environ w) 2 \<ge> 7 * DAY \<longrightarrow>
             in_range (date_start (clock (environ w) 0)
               + (if weekday (clock (environ w) 0) = 0 then 7
                  else 7 - weekday (clock (environ w) 0)) * DAY
               + 9 * HOUR - WEEK)"
  shows "do i f a k w =
    (let t = clock (environ w) 0;
         n = date_start t + (if weekday t = 0 then 7 else 7 - weekday t) * DAY + 9 * HOUR;
         j = monday_at_9\<lparr>args := Some a, kwargs := Some k, job_func_name := Some f,
               period := Some WEEK,
               next_run := Some (if n - clock (environ w) 2 \<ge> 7 * DAY then n - WEEK else n)\<rparr>
     in (None, w\<lparr>objs := (objs w)(i := j),
                  environ := snd (now (snd (now (snd (now (environ w)))))),
                  jobs := jobs w @ [i]\<rparr>))"
proof -
  let ?j0 = "monday_at_9\<lparr>args := Some a, kwargs := Some k, job_func_name := Some f\<rparr>"
  have s: "schedule_next_run ?j0 (environ w) =
    (let k = (if weekday (clock (environ w) 0) = 0 then 7 else 7 - weekday (clock (environ w) 0));
         n = date_start (clock (environ w) 0) + k * DAY + 9 * HOUR
     in (None,
         ?j0\<lparr>period := Some WEEK,
           next_run := Some (if n - clock (environ w) 2 \<ge> 7 * DAY then n - WEEK else n)\<rparr>,
         snd (now (snd (now (snd (now (environ w))))))))"
    by (rule monday_job_next_run[OF _ _ _ _ _ _ _ r0 r1 r2]) (simp_all add: monday_at_9_eq Job_def)
  have hs: "has_scheduler monday_at_9" by (simp add: monday_at_9_eq Job_def)
  show ?thesis
    by (simp add: do_def assms(1) s Let_def hs)
qed

text \<open>When the clock's reading plus one week is out of range, the base instant overflows.\<close>

lemma do_monday_at_9_overflow:
  assumes o: "objs w i = monday_at_9" and r: "\<not> in_range (clock (environ w) 0 + WEEK)"
  shows "fst (do i f a k w) = Some OverflowError \<and> jobs (snd (do i f a k w)) = jobs w"
proof -
  let ?j0 = "monday_at_9\<lparr>args := Some a, kwargs := Some k, job_func_name := Some f\<rparr>"
  let ?j1 = "?j0\<lparr>period := Some WEEK\<rparr>"
  have s1: "check_unit ?j0 (environ w) = (None, ?j0, environ w)"
    by (simp add: check_unit_def valid_units_def monday_at_9_eq)
  have td: "timedelta_of ''weeks'' 1 = Inr WEEK"
    by (simp add: timedelta_of_def unit_duration_def mk_timedelta_def WEEK_def DAY_def)
  have s2: "resolve_period ?j0 (environ w) = (None, ?j1, environ w)"
    using td by (simp add: resolve_period_def monday_at_9_eq Job_def)
  have s3: "base_instant ?j1 (environ w) = (Some OverflowError, ?j1, snd (now (environ w)))"
    using datetime_add_out_of_range[OF r]
    by (simp add: base_instant_def now_def monday_at_9_eq Job_def)
  have s: "schedule_next_run ?j0 (environ w) =
      (Some OverflowError, ?j1, snd (now (environ w)))"
    unfolding schedule_next_run_def s1 and_then_None s2 s3 and_then_Some ..
  show ?thesis by (simp add: do_def o s Let_def)
qed

text \<open>
  C3. For a weekly job anchored on a weekday, the anchor step adds to the base
  \<open>next_run\<close> the \<open>k\<close> days from its weekday forward to the target weekday, \<open>k\<close> being
  the difference of the weekday numbers plus 7 when that is not positive, so that
  \<open>1 \<le> k \<le> 7\<close> and the day reached is the target weekday, and subtracts one period;
  when the duration or the sum is out of Python's range the step raises OverflowError
  and assigns nothing. \<^verbatim>\<open>every().monday.at("09:00")\<close> bound on a Wednesday (the clock not
  running backwards between the readings) is due on the Monday five days later at
  09:00:00; bound on a Monday, with the clock still at or before 09:00 at the last
  reading, it is due on that same day at 09:00:00. In both, the clock's first reading
  and that reading plus one week are instants that a \<^verbatim>\<open>datetime\<close> can hold. When
  the reading plus one week is not, binding the job raises OverflowError and does not
  register it.
\<close>

theorem weekday_anchor_lands_on_target:
  "(start_day j = Some d \<and> d \<in> set weekdays \<and> unit j = Some ''weeks'' \<and>
    next_run j = Some n \<and> period j = Some p \<longrightarrow>
      (\<exists>k. 1 \<le> k \<and> k \<le> 7 \<and>
           k = (if index_of weekdays d - weekday n \<le> 0
                then index_of weekdays d - weekday n + 7 else index_of weekdays d - weekday n) \<and>
           weekday (n + k * DAY) = index_of weekdays d \<and>
           weekday_anchor j e =
             (if mk_timedelta (k * DAY - p) = Inr (k * DAY - p) \<and> in_range (n + (k * DAY - p))
              then (None, j\<lparr>next_run := Some (n + (k * DAY - p))\<rparr>, e)
              else (Some OverflowError, j, e)))) \<and>
   (objs w i = monday_at_9 \<and> weekday (clock (environ w) 0) = 2 \<and>
    clock (environ w) 0 \<le> clock (environ w) 2 \<and>
    in_range (clock (environ w) 0) \<and> in_range (clock (environ w) 0 + WEEK) \<longrightarrow>
      fst (do i f a k w) = None \<and>
      next_run (objs (snd (do i f a k w)) i) =
        Some (date_start (clock (environ w) 0) + 5 * DAY + 9 * HOUR) \<and>
      jobs (snd (do i f a k w)) = jobs w @ [i]) \<and>
   (objs w i = monday_at_9 \<and> weekday (clock (environ w) 0) = 0 \<and>
    clock (environ w) 2 \<le> date_start (clock (environ w) 0) + 9 * HOUR \<and>
    in_range (clock (environ w) 0) \<and> in_range (clock (environ w) 0 + WEEK) \<longrightarrow>
      fst (do i f a k w) = None \<and>
      next_run (objs (snd (do i f a k w)) i) =
        Some (date_start (clock (environ w) 0) + 9 * HOUR) \<and>
      jobs (snd (do i f a k w)) = jobs w @ [i]) \<and>
   (objs w i = monday_at_9 \<and> \<not> in_range (clock (environ w) 0 + WEEK) \<longrightarrow>
      fst (do i f a k w) = Some OverflowError \<and> jobs (snd (do i f a k w)) = jobs w)"
proof (intro conjI impI)
  assume "start_day j = Some d \<and> d \<in> set weekdays \<and> unit j = Some ''weeks'' \<and>
    next_run j = Some n \<and> period j = Some p"
  then show "\<exists>k. 1 \<le> k \<and> k \<le> 7 \<and>
           k = (if index_of weekdays d - weekday n \<le> 0
                then index_of weekdays d - weekday n + 7 else index_of weekdays d - weekday n) \<and>
           weekday (n + k * DAY) = index_of weekdays d \<and>
           weekday_anchor j e =
             (if mk_timedelta (k * DAY - p) = Inr (k * DAY - p) \<and> in_range (n + (k * DAY - p))
              then (None, j\<lparr>next_run := Some (n + (k * DAY - p))\<rparr>, e)
              else (Some OverflowError, j, e))"
    using anchor_mechanism[of j d n p e] by blast
next
  assume h: "objs w i = monday_at_9 \<and> weekday (clock (environ w) 0) = 2 \<and>
    clock (environ w) 0 \<le> clock (environ w) 2 \<and>
    in_range (clock (environ w) 0) \<and> in_range (clock (environ w) 0 + WEEK)"
  let ?t = "clock (environ w) 0"
  have r: "\<not> (date_start ?t + 5 * DAY + 9 * HOUR - clock (environ w) 2 \<ge> 7 * DAY)"
    using h time_of_day_range[of ?t] by (simp add: DAY_def HOUR_def)
  have r2: "date_start ?t + (if weekday ?t = 0 then 7 else 7 - weekday ?t) * DAY
               + 9 * HOUR - clock (environ w) 2 \<ge> 7 * DAY \<longrightarrow>
             in_range (date_start ?t + (if weekday ?t = 0 then 7 else 7 - weekday ?t) * DAY
               + 9 * HOUR - WEEK)"
    using h r by simp
  have o: "objs w i = monday_at_9" "in_range ?t" "in_range (?t + WEEK)" using h by simp_all
  note D = do_monday_at_9[OF o r2, of f a k]
  have wd: "weekday ?t = 2" using h by simp
  show "fst (do i f a k w) = None" unfolding D by (simp add: Let_def)
  show "next_run (objs (snd (do i f a k w)) i) = Some (date_start ?t + 5 * DAY + 9 * HOUR)"
    unfolding D using r by (simp add: Let_def wd)
  show "jobs (snd (do i f a k w)) = jobs w @ [i]" unfolding D by (simp add: Let_def)
next
  assume h: "objs w i = monday_at_9 \<and> weekday (clock (environ w) 0) = 0 \<and>
    clock (environ w) 2 \<le> date_start (clock (environ w) 0) + 9 * HOUR \<and>
    in_range (clock (environ w) 0) \<and> in_range (clock (environ w) 0 + WEEK)"
  let ?t = "clock (environ w) 0"
  have week: "WEEK = 7 * DAY" by (simp add: WEEK_def DAY_def)
  have wd: "weekday ?t = 0" using h by simp
  have r: "date_start ?t + 7 * DAY + 9 * HOUR - clock (environ w) 2 \<ge> 7 * DAY"
    using h by simp
  have lo: "DATETIME_MIN \<le> date_start ?t"
    using h date_start_in_range[of ?t] by (simp add: in_range_def)
  have hi: "date_start ?t + 9 * HOUR \<le> ?t + WEEK"
    using time_of_day_range[of ?t] by (simp add: WEEK_def HOUR_def)
  have ir: "in_range (date_start ?t + 9 * HOUR)"
    using lo hi h by (simp add: in_range_def HOUR_def)
  have r2: "date_start ?t + (if weekday ?t = 0 then 7 else 7 - weekday ?t) * DAY
               + 9 * HOUR - clock (environ w) 2 \<ge> 7 * DAY \<longrightarrow>
             in_range (date_start ?t + (if weekday ?t = 0 then 7 else 7 - weekday ?t) * DAY
               + 9 * HOUR - WEEK)"
    unfolding wd week using ir by simp
  have o: "objs w i = monday_at_9" "in_range ?t" "in_range (?t + WEEK)" using h by simp_all
  note D = do_monday_at_9[OF o r2, of f a k]
  show "fst (do i f a k w) = None" unfolding D by (simp add: Let_def)
  show "next_run (objs (snd (do i f a k w)) i) = Some (date_start ?t + 9 * HOUR)"
    unfolding D using r by (simp add: Let_def wd week)
  show "jobs (snd (do i f a k w)) = jobs w @ [i]" unfolding D by (simp add: Let_def)
next
  assume h: "objs w i = monday_at_9 \<and> \<not> in_range (clock (environ w) 0 + WEEK)"
  then have o: "objs w i = monday_at_9" and r: "\<not> in_range (clock (environ w) 0 + WEEK)"
    by simp_all
  show "fst (do i f a k w) = Some OverflowError"
    using do_monday_at_9_overflow[OF o r] by simp
  show "jobs (snd (do i f a k w)) = jobs w"
    using do_monday_at_9_overflow[OF o r] by simp
qed

text \<open>
  Wednesday 1970-01-07 at 12:00 gives Monday 1970-01-12 at 09:00; Monday 1970-01-05 at
  08:00 gives that day at 09:00; at the last instant of the year 9999 binding
  overflows.
\<close>

theorem weekday_anchor_lands_on_target_witness:
  "weekday (6 * DAY + 12 * HOUR) = 2 \<and>
   next_run (objs (snd (do 0 ''work'' [] [] (world_with monday_at_9 (6 * DAY + 12 * HOUR)))) 0)
     = Some (11 * DAY + 9 * HOUR) \<and>
   weekday (4 * DAY + 8 * HOUR) = 0 \<and>
   next_run (objs (snd (do 0 ''work'' [] [] (world_with monday_at_9 (4 * DAY + 8 * HOUR)))) 0)
     = Some (4 * DAY + 9 * HOUR) \<and>
   weekday_anchor (monday_at_9\<lparr>next_run := Some (13 * DAY + 12 * HOUR), period := Some WEEK\<rparr>)
       (env_at 0)
     = (None, monday_at_9\<lparr>next_run := Some (11 * DAY + 12 * HOUR), period := Some WEEK\<rparr>,
        env_at 0) \<and>
   fst (do 0 ''work'' [] [] (world_with monday_at_9 DATETIME_MAX)) = Some OverflowError"
proof -
  have wed: "weekday (6 * DAY + 12 * HOUR) = 2"
    by (simp add: weekday_def DAY_def HOUR_def)
  have mon: "weekday (4 * DAY + 8 * HOUR) = 0"
    by (simp add: weekday_def DAY_def HOUR_def)
  have wed2: "weekday (13 * DAY + 12 * HOUR) = 2"
    by (simp add: weekday_def DAY_def HOUR_def)
  have ds1: "date_start (6 * DAY + 12 * HOUR) = 6 * DAY"
    by (simp add: date_start_def DAY_def HOUR_def)
  have ds2: "date_start (4 * DAY + 8 * HOUR) = 4 * DAY"
    by (simp add: date_start_def DAY_def HOUR_def)
  have rg: "in_range (6 * DAY + 12 * HOUR)" "in_range (6 * DAY + 12 * HOUR + WEEK)"
    "in_range (4 * DAY + 8 * HOUR)" "in_range (4 * DAY + 8 * HOUR + WEEK)"
    "in_range (13 * DAY + 12 * HOUR + (5 * DAY - WEEK))"
    by (simp_all add: in_range_def DATETIME_MIN_def DATETIME_MAX_def DAY_def HOUR_def WEEK_def)
  have mk: "mk_timedelta (5 * DAY - WEEK) = Inr (5 * DAY - WEEK)"
    by (simp add: mk_timedelta_def DAY_def WEEK_def)
  let ?W = "world_with monday_at_9 (6 * DAY + 12 * HOUR)"
  let ?M = "world_with monday_at_9 (4 * DAY + 8 * HOUR)"
  let ?J = "monday_at_9\<lparr>next_run := Some (13 * DAY + 12 * HOUR), period := Some WEEK\<rparr>"
  have cw: "clock (environ ?W) 0 = 6 * DAY + 12 * HOUR"
    "clock (environ ?W) 2 = 6 * DAY + 12 * HOUR + 2" "objs ?W 0 = monday_at_9"
    by (simp_all add: world_with_def env_at_def)
  have cm: "clock (environ ?M) 0 = 4 * DAY + 8 * HOUR"
    "clock (environ ?M) 2 = 4 * DAY + 8 * HOUR + 2" "objs ?M 0 = monday_at_9"
    by (simp_all add: world_with_def env_at_def)
  have le: "4 * DAY + 8 * HOUR + 2 \<le> 4 * DAY + 9 * HOUR" by (simp add: HOUR_def)
  have hw: "objs ?W 0 = monday_at_9 \<and> weekday (clock (environ ?W) 0) = 2 \<and>
    clock (environ ?W) 0 \<le> clock (environ ?W) 2 \<and>
    in_range (clock (environ ?W) 0) \<and> in_range (clock (environ ?W) 0 + WEEK)"
    unfolding cw using wed rg by simp
  have hm: "objs ?M 0 = monday_at_9 \<and> weekday (clock (environ ?M) 0) = 0 \<and>
    clock (environ ?M) 2 \<le> date_start (clock (environ ?M) 0) + 9 * HOUR \<and>
    in_range (clock (environ ?M) 0) \<and> in_range (clock (environ ?M) 0 + WEEK)"
    unfolding cm ds2 using mon le rg by simp
  have hj: "start_day ?J = Some ''monday'' \<and> ''monday'' \<in> set weekdays \<and>
    unit ?J = Some ''weeks'' \<and> next_run ?J = Some (13 * DAY + 12 * HOUR) \<and>
    period ?J = Some WEEK"
    by (simp add: monday_at_9_eq Job_def weekdays_def)
  note T = weekday_anchor_lands_on_target[where j = ?J and d = "''monday''"
        and n = "13 * DAY + 12 * HOUR" and p = WEEK and e = "env_at 0"
        and f = "''work''" and a = "[]" and k = "[]" and i = 0]
  have 1: "next_run (objs (snd (do 0 ''work'' [] [] ?W)) 0) = Some (11 * DAY + 9 * HOUR)"
    using T[where w = ?W, THEN conjunct2, THEN conjunct1, THEN mp, OF hw]
    by (simp add: cw ds1)
  have 2: "next_run (objs (snd (do 0 ''work'' [] [] ?M)) 0) = Some (4 * DAY + 9 * HOUR)"
    using T[where w = ?M, THEN conjunct2, THEN conjunct2, THEN conjunct1, THEN mp, OF hm]
    by (simp add: cm ds2)
  have ix: "index_of weekdays ''monday'' = 0" by (simp add: weekdays_def)
  have "weekday_anchor ?J (env_at 0)
     = (None, ?J\<lparr>next_run := Some (13 * DAY + 12 * HOUR + (5 * DAY - WEEK))\<rparr>, env_at 0)"
    using T[where w = ?M, THEN conjunct1, THEN mp, OF hj] mk rg(5)
    unfolding ix wed2 by simp
  then have 3: "weekday_anchor ?J (env_at 0)
     = (None, monday_at_9\<lparr>next_run := Some (11 * DAY + 12 * HOUR), period := Some WEEK\<rparr>,
        env_at 0)"
    by (simp add: WEEK_def DAY_def)
  let ?X = "world_with monday_at_9 DATETIME_MAX"
  have hx: "objs ?X 0 = monday_at_9 \<and> \<not> in_range (clock (environ ?X) 0 + WEEK)"
    by (simp add: world_with_def env_at_def in_range_def WEEK_def DAY_def)
  have 4: "fst (do 0 ''work'' [] [] ?X) = Some OverflowError"
    using T[where w = ?X, THEN conjunct2, THEN conjunct2, THEN conjunct2, THEN mp, OF hx]
    by simp
  show ?thesis using wed mon 1 2 3 4 by blast
qed

subsection \<open>\<^verbatim>\<open>at\<close> on an hourly job\<close>

text \<open>
  C9, as stated, fails: on an hourly job \<^verbatim>\<open>at(":30")\<close> stores minute 30 and second 0,
  not minute 0 and second 30.
\<close>

theorem hourly_colon_counterexample:
  "at (hours (Job 1 True)) '':30'' =
     (None, (hours (Job 1 True))
        \<lparr>at_time := Some \<lparr>hour = 0, minute = 30, second = 0, microsecond = 0\<rparr>\<rparr>) \<and>
   at_time (snd (at (hours (Job 1 True)) '':30'')) \<noteq>
     Some \<lparr>hour = 0, minute = 0, second = 30, microsecond = 0\<rparr>"
  by (simp add: at_def hours_def Job_def truthy_def at_dollar_def
        hourly_pattern_def two_chars_def digits_def time_components_def py_int_def strip_def
        is_space_def digit_value_def mk_time_def)

text \<open>Digits, and the two-digit numbers they spell.\<close>

lemma digit_facts:
  assumes "c \<in> set digits"
  shows "c \<noteq> CHR '':''" "\<not> is_space c" "0 \<le> digit_value c" "digit_value c \<le> 9"
  using assms by (auto simp: digits_def is_space_def digit_value_def)

lemma tens_facts:
  assumes "c \<in> set ''012345''"
  shows "c \<in> set digits" "digit_value c \<le> 5"
  using assms by (auto simp: digits_def digit_value_def)

lemma py_int_two_digits:
  assumes "a \<in> set digits" "b \<in> set digits"
  shows "py_int (CStr [a, b]) = Some (10 * digit_value a + digit_value b)"
  using assms digit_facts(2)[OF assms(1)] digit_facts(2)[OF assms(2)]
  by (simp add: py_int_def strip_def)

lemma split_mm_ss:
  assumes "a \<in> set digits" "b \<in> set digits" "c \<in> set digits" "d \<in> set digits"
  shows "split_on CHR '':'' [a, b, CHR '':'', c, d] = [[a, b], [c, d]]"
  using assms[THEN digit_facts(1)] by simp

lemma split_colon_mm:
  assumes "a \<in> set digits" "b \<in> set digits"
  shows "split_on CHR '':'' [CHR '':'', a, b] = [[], [a, b]]"
  using assms[THEN digit_facts(1)] by simp

lemma mk_time_hour_0:
  "mk_time 0 m s = Some t \<Longrightarrow> hour t = 0 \<and> minute t = m \<and> second t = s"
  by (auto simp: mk_time_def split: if_splits)

text \<open>\<^verbatim>\<open>at\<close> on a job without anchor weekday, by unit.\<close>

lemma at_hourly_cases:
  assumes u: "unit j = Some ''hours''" and sd: "\<not> truthy (start_day j)"
  shows "at j s =
      (if \<not> at_dollar hourly_pattern s then (Some ScheduleValueError, j)
       else case time_components j (split_on CHR '':'' s) of
              None \<Rightarrow> (Some ValueError, j)
            | Some (hour0, minute0, second0) \<Rightarrow>
                (case (py_int minute0, py_int second0) of
                   (Some m, Some s) \<Rightarrow>
                     (case mk_time 0 m s of
                        None \<Rightarrow> (Some ValueError, j)
                      | Some t \<Rightarrow> (None, j\<lparr>at_time := Some t\<rparr>))
                 | _ \<Rightarrow> (Some ValueError, j)))"
  using u sd by (simp add: at_def Let_def split: option.splits prod.splits)

lemma at_minutely_cases:
  assumes u: "unit j = Some ''minutes''" and sd: "\<not> truthy (start_day j)"
  shows "at j s =
      (if \<not> at_dollar minutely_pattern s then (Some ScheduleValueError, j)
       else case time_components j (split_on CHR '':'' s) of
              None \<Rightarrow> (Some ValueError, j)
            | Some (hour0, minute0, second0) \<Rightarrow>
                (case py_int second0 of
                   Some s \<Rightarrow>
                     (case mk_time 0 0 s of
                        None \<Rightarrow> (Some ValueError, j)
                      | Some t \<Rightarrow> (None, j\<lparr>at_time := Some t\<rparr>))
                 | _ \<Rightarrow> (Some ValueError, j)))"
  using u sd by (simp add: at_def Let_def py_int_def split: option.splits prod.splits)

lemma at_hourly_hour_0:
  assumes u: "unit j = Some ''hours''" and sd: "\<not> truthy (start_day j)"
    and r: "at j s = (None, j')"
  shows "\<exists>t. j' = j\<lparr>at_time := Some t\<rparr> \<and> hour t = 0"
  using r unfolding at_hourly_cases[OF u sd]
  by (auto split: if_splits option.splits prod.splits dest: mk_time_hour_0)

lemma at_minutely_hour_minute_0:
  assumes u: "unit j = Some ''minutes''" and sd: "\<not> truthy (start_day j)"
    and r: "at j s = (None, j')"
  shows "\<exists>t. j' = j\<lparr>at_time := Some t\<rparr> \<and> hour t = 0 \<and> minute t = 0"
  using r unfolding at_minutely_cases[OF u sd]
  by (auto split: if_splits option.splits prod.splits dest: mk_time_hour_0)

lemma at_hourly_mm_ss:
  assumes u: "unit j = Some ''hours''" and sd: "\<not> truthy (start_day j)"
    and m1: "m1 \<in> set ''012345''" and m2: "m2 \<in> set digits"
    and s1: "s1 \<in> set ''012345''" and s2: "s2 \<in> set digits"
  shows "at j [m1, m2, CHR '':'', s1, s2] =
    (None, j\<lparr>at_time := Some \<lparr>hour = 0, minute = 10 * digit_value m1 + digit_value m2,
        second = 10 * digit_value s1 + digit_value s2, microsecond = 0\<rparr>\<rparr>)"
proof -
  note d1 = tens_facts[OF m1] and d3 = tens_facts[OF s1]
  have p: "at_dollar hourly_pattern [m1, m2, CHR '':'', s1, s2]"
    using m1 m2 s1 s2 by (simp add: at_dollar_def hourly_pattern_def two_chars_def)
  have sp: "split_on CHR '':'' [m1, m2, CHR '':'', s1, s2] = [[m1, m2], [s1, s2]]"
    using d1(1) m2 d3(1) s2 by (rule split_mm_ss)
  have tc: "time_components j [[m1, m2], [s1, s2]] = Some (CInt 0, CStr [m1, m2], CStr [s1, s2])"
    using u by (simp add: time_components_def)
  have mk: "mk_time 0 (10 * digit_value m1 + digit_value m2)
              (10 * digit_value s1 + digit_value s2) =
            Some \<lparr>hour = 0, minute = 10 * digit_value m1 + digit_value m2,
                   second = 10 * digit_value s1 + digit_value s2, microsecond = 0\<rparr>"
    using d1(2) d3(2) digit_facts(3,4)[OF m2] digit_facts(3,4)[OF s2]
      digit_facts(3)[OF d1(1)] digit_facts(3)[OF d3(1)]
    by (simp add: mk_time_def)
  show ?thesis
    unfolding at_hourly_cases[OF u sd] sp tc
    using p mk by (simp add: py_int_two_digits d1(1) m2 d3(1) s2)
qed

lemma at_hourly_colon_mm:
  assumes u: "unit j = Some ''hours''" and sd: "\<not> truthy (start_day j)"
    and m1: "m1 \<in> set ''012345''" and m2: "m2 \<in> set digits"
  shows "at j [CHR '':'', m1, m2] =
    (None, j\<lparr>at_time := Some \<lparr>hour = 0, minute = 10 * digit_value m1 + digit_value m2,
        second = 0, microsecond = 0\<rparr>\<rparr>)"
proof -
  note d1 = tens_facts[OF m1]
  have p: "at_dollar hourly_pattern [CHR '':'', m1, m2]"
    using m1 m2 by (simp add: at_dollar_def hourly_pattern_def two_chars_def)
  have sp: "split_on CHR '':'' [CHR '':'', m1, m2] = [[], [m1, m2]]"
    using d1(1) m2 by (rule split_colon_mm)
  have tc: "time_components j [[], [m1, m2]] = Some (CStr [], CStr [m1, m2], CInt 0)"
    using u by (simp add: time_components_def)
  have mk: "mk_time 0 (10 * digit_value m1 + digit_value m2) 0 =
            Some \<lparr>hour = 0, minute = 10 * digit_value m1 + digit_value m2,
                   second = 0, microsecond = 0\<rparr>"
    using d1(2) digit_facts(3,4)[OF m2] digit_facts(3)[OF d1(1)]
    by (simp add: mk_time_def)
  show ?thesis
    unfolding at_hourly_cases[OF u sd] sp tc
    using p mk by (simp add: py_int_two_digits d1(1) m2) (simp add: py_int_def)
qed

text \<open>
  C9, amended. On a job whose unit is hours and that has no anchor weekday, \<^verbatim>\<open>at\<close>
  accepts \<^verbatim>\<open>MM:SS\<close>, storing hour 0, minute MM, second SS, and \<^verbatim>\<open>:MM\<close>, storing hour 0,
  minute MM, second 0; a string that does not match the hourly pattern is a
  ScheduleValueError; whatever is stored has hour 0. On a job whose unit is minutes
  and that has no anchor weekday, whatever is stored has hour 0 and minute 0. On a
  job whose unit is hours and that has an anchor weekday the daily pattern is
  checked first, and a string that does not match it is a ScheduleValueError.
\<close>

theorem at_hourly_formats:
  "(unit j = Some ''hours'' \<and> \<not> truthy (start_day j) \<longrightarrow>
     (m1 \<in> set ''012345'' \<and> m2 \<in> set digits \<and> s1 \<in> set ''012345'' \<and> s2 \<in> set digits \<longrightarrow>
        at j [m1, m2, CHR '':'', s1, s2] =
          (None, j\<lparr>at_time := Some \<lparr>hour = 0, minute = 10 * digit_value m1 + digit_value m2,
             second = 10 * digit_value s1 + digit_value s2, microsecond = 0\<rparr>\<rparr>)) \<and>
     (m1 \<in> set ''012345'' \<and> m2 \<in> set digits \<longrightarrow>
        at j [CHR '':'', m1, m2] =
          (None, j\<lparr>at_time := Some \<lparr>hour = 0, minute = 10 * digit_value m1 + digit_value m2,
             second = 0, microsecond = 0\<rparr>\<rparr>)) \<and>
     (\<not> at_dollar hourly_pattern s \<longrightarrow> at j s = (Some ScheduleValueError, j)) \<and>
     (at j s = (None, j') \<longrightarrow> (\<exists>t. j' = j\<lparr>at_time := Some t\<rparr> \<and> hour t = 0))) \<and>
   (unit j = Some ''minutes'' \<and> \<not> truthy (start_day j) \<and> at j s = (None, j') \<longrightarrow>
     (\<exists>t. j' = j\<lparr>at_time := Some t\<rparr> \<and> hour t = 0 \<and> minute t = 0)) \<and>
   (unit j = Some ''hours'' \<and> truthy (start_day j) \<and> \<not> at_dollar daily_pattern s \<longrightarrow>
     at j s = (Some ScheduleValueError, j))"
proof (intro conjI impI)
  assume h: "unit j = Some ''hours'' \<and> \<not> truthy (start_day j)"
  then have u: "unit j = Some ''hours''" and sd: "\<not> truthy (start_day j)" by simp_all
  {
    assume "m1 \<in> set ''012345'' \<and> m2 \<in> set digits \<and> s1 \<in> set ''012345'' \<and> s2 \<in> set digits"
    then show "at j [m1, m2, CHR '':'', s1, s2] =
          (None, j\<lparr>at_time := Some \<lparr>hour = 0, minute = 10 * digit_value m1 + digit_value m2,
             second = 10 * digit_value s1 + digit_value s2, microsecond = 0\<rparr>\<rparr>)"
      using at_hourly_mm_ss[OF u sd] by blast
  }
  {
    assume "m1 \<in> set ''012345'' \<and> m2 \<in> set digits"
    then show "at j [CHR '':'', m1, m2] =
          (None, j\<lparr>at_time := Some \<lparr>hour = 0, minute = 10 * digit_value m1 + digit_value m2,
             second = 0, microsecond = 0\<rparr>\<rparr>)"
      using at_hourly_colon_mm[OF u sd] by blast
  }
  {
    assume "\<not> at_dollar hourly_pattern s"
    then show "at j s = (Some ScheduleValueError, j)"
      unfolding at_hourly_cases[OF u sd] by simp
  }
  {
    assume "at j s = (None, j')"
    then show "\<exists>t. j' = j\<lparr>at_time := Some t\<rparr> \<and> hour t = 0"
      by (rule at_hourly_hour_0[OF u sd])
  }
next
  assume "unit j = Some ''minutes'' \<and> \<not> truthy (start_day j) \<and> at j s = (None, j')"
  then show "\<exists>t. j' = j\<lparr>at_time := Some t\<rparr> \<and> hour t = 0 \<and> minute t = 0"
    using at_minutely_hour_minute_0 by blast
next
  assume "unit j = Some ''hours'' \<and> truthy (start_day j) \<and> \<not> at_dollar daily_pattern s"
  then show "at j s = (Some ScheduleValueError, j)" by (simp add: at_def)
qed

text \<open>
  \<^verbatim>\<open>every().hours.at("15:30")\<close>, \<^verbatim>\<open>at(":45")\<close> and the rejected \<^verbatim>\<open>at("9:30")\<close>;
  \<^verbatim>\<open>every().minutes.at(":20")\<close>; \<^verbatim>\<open>every().monday.hours.at(":45")\<close>, rejected.
\<close>

theorem at_hourly_formats_witness:
  "at (hours (Job 1 True)) ''15:30'' =
     (None, (hours (Job 1 True))
        \<lparr>at_time := Some \<lparr>hour = 0, minute = 15, second = 30, microsecond = 0\<rparr>\<rparr>) \<and>
   at (hours (Job 1 True)) '':45'' =
     (None, (hours (Job 1 True))
        \<lparr>at_time := Some \<lparr>hour = 0, minute = 45, second = 0, microsecond = 0\<rparr>\<rparr>) \<and>
   at (hours (Job 1 True)) ''9:30'' = (Some ScheduleValueError, hours (Job 1 True)) \<and>
   at (minutes (Job 1 True)) '':20'' =
     (None, (minutes (Job 1 True))
        \<lparr>at_time := Some \<lparr>hour = 0, minute = 0, second = 20, microsecond = 0\<rparr>\<rparr>) \<and>
   at (hours (snd (monday (Job 1 True)))) '':45'' =
     (Some ScheduleValueError, hours (snd (monday (Job 1 True))))"
proof -
  have h: "unit (hours (Job 1 True)) = Some ''hours'' \<and> \<not> truthy (start_day (hours (Job 1 True)))"
    by (simp add: hours_def Job_def truthy_def)
  have d: "CHR ''1'' \<in> set ''012345''" "CHR ''5'' \<in> set digits" "CHR ''3'' \<in> set ''012345''"
    "CHR ''0'' \<in> set digits" "CHR ''4'' \<in> set ''012345''"
    by (simp_all add: digits_def)
  have v: "digit_value CHR ''1'' = 1" "digit_value CHR ''5'' = 5" "digit_value CHR ''3'' = 3"
    "digit_value CHR ''0'' = 0" "digit_value CHR ''4'' = 4"
    by (simp_all add: digit_value_def digits_def)
  have n: "\<not> at_dollar hourly_pattern ''9:30''"
    by (simp add: at_dollar_def hourly_pattern_def two_chars_def)
  note T1 = at_hourly_formats[where j = "hours (Job 1 True)" and ?m1.0 = "CHR ''1''"
        and ?m2.0 = "CHR ''5''" and ?s1.0 = "CHR ''3''" and ?s2.0 = "CHR ''0''"
        and s = "''9:30''" and j' = "hours (Job 1 True)", THEN conjunct1, THEN mp, OF h]
  note T2 = at_hourly_formats[where j = "hours (Job 1 True)" and ?m1.0 = "CHR ''4''"
        and ?m2.0 = "CHR ''5''" and ?s1.0 = "CHR ''3''" and ?s2.0 = "CHR ''0''"
        and s = "''9:30''" and j' = "hours (Job 1 True)", THEN conjunct1, THEN mp, OF h]
  have 1: "at (hours (Job 1 True)) ''15:30'' =
     (None, (hours (Job 1 True))
        \<lparr>at_time := Some \<lparr>hour = 0, minute = 15, second = 30, microsecond = 0\<rparr>\<rparr>)"
    using T1[THEN conjunct1, THEN mp] d unfolding v by simp
  have 2: "at (hours (Job 1 True)) '':45'' =
     (None, (hours (Job 1 True))
        \<lparr>at_time := Some \<lparr>hour = 0, minute = 45, second = 0, microsecond = 0\<rparr>\<rparr>)"
    using T2[THEN conjunct2, THEN conjunct1, THEN mp] d unfolding v by simp
  have 3: "at (hours (Job 1 True)) ''9:30'' = (Some ScheduleValueError, hours (Job 1 True))"
    using T1[THEN conjunct2, THEN conjunct2, THEN conjunct1, THEN mp, OF n] .
  have 4: "at (minutes (Job 1 True)) '':20'' =
     (None, (minutes (Job 1 True))
        \<lparr>at_time := Some \<lparr>hour = 0, minute = 0, second = 20, microsecond = 0\<rparr>\<rparr>)"
    by (simp add: at_def minutes_def Job_def truthy_def at_dollar_def
        minutely_pattern_def two_chars_def digits_def time_components_def py_int_def strip_def
        is_space_def digit_value_def mk_time_def)
  have hs: "unit (hours (snd (monday (Job 1 True)))) = Some ''hours'' \<and>
      truthy (start_day (hours (snd (monday (Job 1 True))))) \<and>
      \<not> at_dollar daily_pattern '':45''"
    by (simp add: hours_def monday_def weekday_property_def weeks_def Job_def truthy_def
          at_dollar_def daily_pattern_def two_chars_def)
  have 5: "at (hours (snd (monday (Job 1 True)))) '':45'' =
     (Some ScheduleValueError, hours (snd (monday (Job 1 True))))"
    using at_hourly_formats[where j = "hours (snd (monday (Job 1 True)))" and s = "'':45''",
        THEN conjunct2, THEN conjunct2, THEN mp, OF hs] .
  show ?thesis using 1 2 3 4 5 by blast
qed

section \<open>Properties of dispatch\<close>

subsection \<open>The deadline\<close>

text \<open>
  C6. For a job with the deadline \<open>c\<close>: if the clock's reading at dispatch is after \<open>c\<close>,
  \<^verbatim>\<open>run\<close> returns \<^verbatim>\<open>CancelJob\<close> and changes nothing but the clock, so that no task is
  created. Otherwise the task of the callable is created, \<^verbatim>\<open>last_run\<close> is the clock's
  next reading, the job stored is the one recomputed from there, and \<^verbatim>\<open>run\<close> returns
  \<^verbatim>\<open>CancelJob\<close> exactly when the new \<^verbatim>\<open>next_run\<close> is after \<open>c\<close>, whatever the callable
  returns. So a job of every 10 seconds whose deadline is not yet passed and less
  than 10 seconds after \<^verbatim>\<open>last_run\<close> creates its task once, and \<^verbatim>\<open>_run_job\<close> removes it from
  the jobs.
\<close>

theorem deadline_cancels_job:
  "(cancel_after (objs w i) = Some c \<and> c < clock (environ w) 0 \<longrightarrow>
      run i w = (Inr (RetValue CancelJobClass), w\<lparr>environ := snd (now (environ w))\<rparr>)) \<and>
   (job_func_name (objs w i) = Some name \<and> globals w name = Some f \<and>
    args (objs w i) = Some a \<and> kwargs (objs w i) = Some k \<and> has_scheduler (objs w i) \<and>
    cancel_after (objs w i) = Some c \<and> clock (environ w) 0 \<le> c \<and>
    schedule_next_run ((objs w i)\<lparr>last_run := Some (clock (environ w) 1)\<rparr>)
      (snd (now (snd (now (environ w))))) = (None, j3, e3) \<and>
    next_run j3 = Some n \<longrightarrow>
      last_run j3 = Some (clock (environ w) 1) \<and>
      run i w =
        (if c < n then Inr (RetValue CancelJobClass)
         else Inr (RetTask \<lparr>task_name = name, task_result = f a k, task_done = False\<rparr>),
         w\<lparr>tasks := tasks w @ [\<lparr>task_name = name, task_result = f a k, task_done = False\<rparr>],
           objs := (objs w)(i := j3), environ := e3\<rparr>)) \<and>
   (job_func_name (objs w i) = Some name \<and> globals w name = Some f \<and>
    args (objs w i) = Some a \<and> kwargs (objs w i) = Some k \<and> has_scheduler (objs w i) \<and>
    unit (objs w i) = Some ''seconds'' \<and> interval (objs w i) = 10 \<and>
    latest (objs w i) = None \<and> start_day (objs w i) = None \<and> at_time (objs w i) = None \<and>
    cancel_after (objs w i) = Some c \<and>
    clock (environ w) 0 \<le> c \<and> c < clock (environ w) 1 + 10 * SECOND \<and>
    in_range (clock (environ w) 1 + 10 * SECOND) \<longrightarrow>
      fst (run i w) = Inr (RetValue CancelJobClass) \<and>
      tasks (snd (run i w)) =
        tasks w @ [\<lparr>task_name = name, task_result = f a k, task_done = False\<rparr>] \<and>
      last_run (objs (snd (run i w)) i) = Some (clock (environ w) 1) \<and>
      next_run (objs (snd (run i w)) i) = Some (clock (environ w) 1 + 10 * SECOND) \<and>
      jobs (snd (run_job i w)) = remove1 i (jobs w))"
proof (intro conjI impI)
  assume "cancel_after (objs w i) = Some c \<and> c < clock (environ w) 0"
  then have "is_overdue (objs w i) (clock (environ w) 0)" by (simp add: is_overdue_def)
  then show "run i w = (Inr (RetValue CancelJobClass), w\<lparr>environ := snd (now (environ w))\<rparr>)"
    by (rule run_overdue)
next
  assume h: "job_func_name (objs w i) = Some name \<and> globals w name = Some f \<and>
    args (objs w i) = Some a \<and> kwargs (objs w i) = Some k \<and> has_scheduler (objs w i) \<and>
    cancel_after (objs w i) = Some c \<and> clock (environ w) 0 \<le> c \<and>
    schedule_next_run ((objs w i)\<lparr>last_run := Some (clock (environ w) 1)\<rparr>)
      (snd (now (snd (now (environ w))))) = (None, j3, e3) \<and>
    next_run j3 = Some n"
  then have s: "schedule_next_run ((objs w i)\<lparr>last_run := Some (clock (environ w) 1)\<rparr>)
      (snd (now (snd (now (environ w))))) = (None, j3, e3)" by simp
  show lr: "last_run j3 = Some (clock (environ w) 1)"
    using schedule_next_run_last_run[of "(objs w i)\<lparr>last_run := Some (clock (environ w) 1)\<rparr>"
        "snd (now (snd (now (environ w))))"] s by simp
  have ca: "cancel_after j3 = Some c"
    using schedule_next_run_cancel_after[of
        "(objs w i)\<lparr>last_run := Some (clock (environ w) 1)\<rparr>"
        "snd (now (snd (now (environ w))))"] s h by simp
  have od: "is_overdue j3 n = (c < n)" by (simp add: is_overdue_def ca)
  have nd: "\<not> is_overdue (objs w i) (clock (environ w) 0)"
    using h by (simp add: is_overdue_def)
  show "run i w =
        (if c < n then Inr (RetValue CancelJobClass)
         else Inr (RetTask \<lparr>task_name = name, task_result = f a k, task_done = False\<rparr>),
         w\<lparr>tasks := tasks w @ [\<lparr>task_name = name, task_result = f a k, task_done = False\<rparr>],
           objs := (objs w)(i := j3), environ := e3\<rparr>)"
    using h od nd by (simp add: run_dispatch[where x = None and ?j3.0 = j3 and ?e3.0 = e3])
next
  assume h: "job_func_name (objs w i) = Some name \<and> globals w name = Some f \<and>
    args (objs w i) = Some a \<and> kwargs (objs w i) = Some k \<and> has_scheduler (objs w i) \<and>
    unit (objs w i) = Some ''seconds'' \<and> interval (objs w i) = 10 \<and>
    latest (objs w i) = None \<and> start_day (objs w i) = None \<and> at_time (objs w i) = None \<and>
    cancel_after (objs w i) = Some c \<and>
    clock (environ w) 0 \<le> c \<and> c < clock (environ w) 1 + 10 * SECOND \<and>
    in_range (clock (environ w) 1 + 10 * SECOND)"
  let ?j2 = "(objs w i)\<lparr>last_run := Some (clock (environ w) 1)\<rparr>"
  let ?j3 = "?j2\<lparr>period := Some (interval ?j2 * SECOND),
               next_run := Some (clock (environ w) 1 + interval ?j2 * SECOND)\<rparr>"
  let ?tk = "\<lparr>task_name = name, task_result = f a k, task_done = False\<rparr>"
  have s: "schedule_next_run ?j2 (snd (now (snd (now (environ w))))) =
      (None, ?j3, snd (now (snd (now (environ w)))))"
    using h by (intro seconds_job_next_run) (simp_all add: SECOND_def DAY_def)
  have nd: "\<not> is_overdue (objs w i) (clock (environ w) 0)"
    using h by (simp add: is_overdue_def)
  have od: "is_overdue ?j3 (clock (environ w) 1 + interval ?j2 * SECOND)"
    using h by (simp add: is_overdue_def)
  have r: "run i w = (Inr (RetValue CancelJobClass),
      w\<lparr>tasks := tasks w @ [?tk], objs := (objs w)(i := ?j3),
        environ := snd (now (snd (now (environ w))))\<rparr>)"
    using h nd od run_dispatch[where w = w and i = i and name = name and f = f and a = a
        and k = k, OF _ _ _ _ _ nd s]
    by simp
  show "fst (run i w) = Inr (RetValue CancelJobClass)" using r by simp
  show "tasks (snd (run i w)) = tasks w @ [?tk]" using r by simp
  show "last_run (objs (snd (run i w)) i) = Some (clock (environ w) 1)" using r by simp
  show "next_run (objs (snd (run i w)) i) = Some (clock (environ w) 1 + 10 * SECOND)"
    using r h by simp
  show "jobs (snd (run_job i w)) = remove1 i (jobs w)"
    using run_job_cancels[of i w] r by simp
qed

text \<open>The example world, spelled out.\<close>

lemma world_until_3s_facts:
  "objs world_until_3s 0 =
     (seconds (Job 10 True))\<lparr>cancel_after := Some (3 * SECOND), args := Some [],
        kwargs := Some [], job_func_name := Some ''work'', period := Some (10 * SECOND),
        next_run := Some (2 + 10 * SECOND)\<rparr>"
  "clock (environ world_until_3s) 0 = 3" "clock (environ world_until_3s) 1 = 4"
  "clock (environ world_until_3s) (Suc 0) = 4"
  "jobs world_until_3s = [0]" "tasks world_until_3s = []"
  "globals world_until_3s = work_globals"
  by (simp_all add: world_until_3s_def until_def until_check_def seconds_def Job_def now_def
        env_at_def do_def schedule_next_run_def check_unit_def valid_units_def
        resolve_period_def timedelta_of_def unit_duration_def mk_timedelta_def
        datetime_add_def DATETIME_MIN_def DATETIME_MAX_def base_instant_def
        weekday_anchor_def at_time_align_def double_check_def SECOND_def DAY_def)

text \<open>
  \<^verbatim>\<open>every(10).seconds.until(timedelta(seconds=3)).do(work)\<close>: the first run creates the
  task of \<^verbatim>\<open>work\<close>, sets the next run ten seconds later and returns \<^verbatim>\<open>CancelJob\<close>; the job
  is removed. A job whose deadline of 10 s is passed at 20 s is cancelled with nothing
  done.
\<close>

theorem deadline_cancels_job_witness:
  "jobs world_until_3s = [0] \<and>
   cancel_after (objs world_until_3s 0) = Some (3 * SECOND) \<and>
   fst (run 0 world_until_3s) = Inr (RetValue CancelJobClass) \<and>
   tasks (snd (run 0 world_until_3s)) =
     [\<lparr>task_name = ''work'', task_result = NoneValue, task_done = False\<rparr>] \<and>
   last_run (objs (snd (run 0 world_until_3s)) 0) = Some 4 \<and>
   next_run (objs (snd (run 0 world_until_3s)) 0) = Some (4 + 10 * SECOND) \<and>
   jobs (snd (run_job 0 world_until_3s)) = [] \<and>
   run 0 (world_deadline (10 * SECOND)) =
     (Inr (RetValue CancelJobClass),
      (world_deadline (10 * SECOND))\<lparr>environ := snd (now (env_at (20 * SECOND)))\<rparr>)"
proof -
  have h: "job_func_name (objs world_until_3s 0) = Some ''work'' \<and>
    globals world_until_3s ''work'' = Some (\<lambda>a k. NoneValue) \<and>
    args (objs world_until_3s 0) = Some [] \<and> kwargs (objs world_until_3s 0) = Some [] \<and>
    has_scheduler (objs world_until_3s 0) \<and>
    unit (objs world_until_3s 0) = Some ''seconds'' \<and> interval (objs world_until_3s 0) = 10 \<and>
    latest (objs world_until_3s 0) = None \<and> start_day (objs world_until_3s 0) = None \<and>
    at_time (objs world_until_3s 0) = None \<and>
    cancel_after (objs world_until_3s 0) = Some (3 * SECOND) \<and>
    clock (environ world_until_3s) 0 \<le> 3 * SECOND \<and>
    3 * SECOND < clock (environ world_until_3s) 1 + 10 * SECOND \<and>
    in_range (clock (environ world_until_3s) 1 + 10 * SECOND)"
    by (simp add: world_until_3s_facts seconds_def Job_def work_globals_def SECOND_def
          in_range_def DATETIME_MIN_def DATETIME_MAX_def DAY_def)
  note T = deadline_cancels_job[where w = world_until_3s and i = 0 and name = "''work''"
        and f = "\<lambda>a k. NoneValue" and a = "[]" and k = "[]" and c = "3 * SECOND",
        THEN conjunct2, THEN conjunct2, THEN mp, OF h]
  have 1: "fst (run 0 world_until_3s) = Inr (RetValue CancelJobClass) \<and>
   tasks (snd (run 0 world_until_3s)) =
     [\<lparr>task_name = ''work'', task_result = NoneValue, task_done = False\<rparr>] \<and>
   last_run (objs (snd (run 0 world_until_3s)) 0) = Some 4 \<and>
   next_run (objs (snd (run 0 world_until_3s)) 0) = Some (4 + 10 * SECOND) \<and>
   jobs (snd (run_job 0 world_until_3s)) = []"
    using T by (simp add: world_until_3s_facts)
  have g: "cancel_after (objs (world_deadline (10 * SECOND)) 0) = Some (10 * SECOND) \<and>
      10 * SECOND < clock (environ (world_deadline (10 * SECOND))) 0"
    by (simp add: world_deadline_facts seconds_def Job_def SECOND_def)
  have 2: "run 0 (world_deadline (10 * SECOND)) =
     (Inr (RetValue CancelJobClass),
      (world_deadline (10 * SECOND))\<lparr>environ := snd (now (env_at (20 * SECOND)))\<rparr>)"
    using deadline_cancels_job[where w = "world_deadline (10 * SECOND)" and i = 0
        and c = "10 * SECOND", THEN conjunct1, THEN mp, OF g]
    by (simp add: world_deadline_def)
  have 3: "jobs world_until_3s = [0] \<and>
      cancel_after (objs world_until_3s 0) = Some (3 * SECOND)"
    by (simp add: world_until_3s_facts seconds_def Job_def)
  show ?thesis using 1 2 3 by blast
qed

subsection \<open>The deadline is exclusive\<close>



subsection \<open>A callable that returns \<^verbatim>\<open>CancelJob\<close>\<close>

text \<open>
  C1. \<^verbatim>\<open>every().second.do(quit)\<close>, where \<^verbatim>\<open>quit\<close> returns \<^verbatim>\<open>CancelJob\<close>: \<^verbatim>\<open>run\<close> returns the
  task it created, not the result of \<^verbatim>\<open>quit\<close>, so that \<^verbatim>\<open>_run_job\<close> does not see the
  sentinel, and after a whole \<^verbatim>\<open>run_pending\<close>, the task done with \<^verbatim>\<open>CancelJob\<close> as its
  result, the job is still registered.
\<close>

theorem cancel_sentinel_from_callable_ignored:
  "globals world_quit ''quit'' = Some (\<lambda>a k. CancelJobClass) \<and>
   fst (run 0 world_quit) =
     Inr (RetTask \<lparr>task_name = ''quit'', task_result = CancelJobClass, task_done = False\<rparr>) \<and>
   jobs (snd (run_job 0 world_quit)) = [0] \<and>
   fst (run_pending world_quit) = None \<and>
   jobs (snd (run_pending world_quit)) = [0] \<and>
   tasks (snd (run_pending world_quit)) =
     [\<lparr>task_name = ''quit'', task_result = CancelJobClass, task_done = True\<rparr>]"
proof -
  let ?tk = "\<lparr>task_name = ''quit'', task_result = CancelJobClass, task_done = False\<rparr>"
  let ?j = "objs world_quit 0"
  let ?j2 = "?j\<lparr>last_run := Some (clock (environ world_quit) 1)\<rparr>"
  let ?j3 = "?j2\<lparr>period := Some (interval ?j2 * SECOND),
               next_run := Some (clock (environ world_quit) 1 + interval ?j2 * SECOND)\<rparr>"
  let ?e3 = "snd (now (snd (now (environ world_quit))))"
  have f: "job_func_name ?j = Some ''quit''"
    "globals world_quit ''quit'' = Some (\<lambda>a k. CancelJobClass)"
    "args ?j = Some []" "kwargs ?j = Some []" "has_scheduler ?j" "cancel_after ?j = None"
    "jobs world_quit = [0]" "tasks world_quit = []" "next_run ?j = Some (5 * SECOND)"
    "clock (environ world_quit) 0 = 6 * SECOND"
    by (simp_all add: world_quit_def quit_globals_def seconds_def Job_def env_at_def)
  have nd: "\<not> is_overdue ?j (clock (environ world_quit) 0)"
    by (simp add: is_overdue_def f)
  have s: "schedule_next_run ?j2 ?e3 = (None, ?j3, ?e3)"
    by (rule seconds_job_next_run)
       (simp_all add: world_quit_def seconds_def Job_def env_at_def now_def in_range_def
          DATETIME_MIN_def DATETIME_MAX_def SECOND_def DAY_def)
  have r: "run 0 world_quit =
      (Inr (RetTask ?tk),
       world_quit\<lparr>tasks := [?tk], objs := (objs world_quit)(0 := ?j3), environ := ?e3\<rparr>)"
    using run_dispatch[OF f(1) f(2) f(3) f(4) f(5) nd s]
    by (simp add: is_overdue_def f)
  have rj: "run_job 0 world_quit =
      (None, world_quit\<lparr>tasks := [?tk], objs := (objs world_quit)(0 := ?j3), environ := ?e3\<rparr>)"
    by (simp add: run_job_def r is_cancel_def)
  have sr: "should_run 0 world_quit =
      (Inr True, world_quit\<lparr>environ := snd (now (environ world_quit))\<rparr>)"
    by (simp add: should_run_def f now_def SECOND_def)
  let ?w1 = "world_quit\<lparr>environ := snd (now (environ world_quit))\<rparr>"
  let ?k2 = "(objs ?w1 0)\<lparr>last_run := Some (clock (environ ?w1) 1)\<rparr>"
  let ?k3 = "?k2\<lparr>period := Some (interval ?k2 * SECOND),
               next_run := Some (clock (environ ?w1) 1 + interval ?k2 * SECOND)\<rparr>"
  let ?f3 = "snd (now (snd (now (environ ?w1))))"
  have nd1: "\<not> is_overdue (objs ?w1 0) (clock (environ ?w1) 0)"
    by (simp add: is_overdue_def f)
  have s1: "schedule_next_run ?k2 ?f3 = (None, ?k3, ?f3)"
    by (rule seconds_job_next_run)
       (simp_all add: world_quit_def seconds_def Job_def env_at_def now_def in_range_def
          DATETIME_MIN_def DATETIME_MAX_def SECOND_def DAY_def)
  have r1: "run 0 ?w1 =
      (Inr (RetTask ?tk), ?w1\<lparr>tasks := [?tk], objs := (objs ?w1)(0 := ?k3), environ := ?f3\<rparr>)"
    using run_dispatch[where w = ?w1 and i = 0 and name = "''quit''"
        and f = "\<lambda>a k. CancelJobClass" and a = "[]" and k = "[]", OF _ _ _ _ _ nd1 s1]
    by (simp add: is_overdue_def f)
  have rj1: "run_job 0 ?w1 =
      (None, ?w1\<lparr>tasks := [?tk], objs := (objs ?w1)(0 := ?k3), environ := ?f3\<rparr>)"
    by (simp add: run_job_def r1 is_cancel_def)
  have rp: "run_pending world_quit =
      (None, ?w1\<lparr>tasks := [?tk\<lparr>task_done := True\<rparr>], objs := (objs ?w1)(0 := ?k3),
               environ := ?f3\<rparr>)"
    by (simp add: run_pending_def f sr dispatch_order_def rj1 gather_def)
  show ?thesis using f r rj rp by simp
qed

subsection \<open>A tick\<close>

text \<open>Reading the clock.\<close>

lemma now_shift: "snd (now e) = e\<lparr>clock := \<lambda>k. clock e (Suc k)\<rparr>" "fst (now e) = clock e 0"
  by (simp_all add: now_def)

lemma should_run_set:
  assumes "next_run (objs w i) = Some n"
  shows "should_run i w = (Inr (n \<le> clock (environ w) 0), w\<lparr>environ := snd (now (environ w))\<rparr>)"
  using assms by (simp add: should_run_def now_def)

text \<open>
  The generator of the due jobs, when every registered job has a \<^verbatim>\<open>next_run\<close>: one
  reading of the clock per job, and nothing else changes.
\<close>

lemma runnable_jobs_eq:
  assumes "\<forall>i\<in>set js. next_run (objs w i) \<noteq> None"
  shows "runnable_jobs js w =
    (Inr (map (\<lambda>(k, i). (the (next_run (objs w i)), i))
            (filter (\<lambda>(k, i). the (next_run (objs w i)) \<le> clock (environ w) k)
               (enumerate 0 js))),
     w\<lparr>environ := (environ w)\<lparr>clock := \<lambda>k. clock (environ w) (k + length js)\<rparr>\<rparr>)"
  using assms
proof (induction js arbitrary: w)
  case Nil
  show ?case by simp
next
  case (Cons i js)
  obtain n where n: "next_run (objs w i) = Some n" using Cons.prems by auto
  let ?w1 = "w\<lparr>environ := snd (now (environ w))\<rparr>"
  have p: "\<forall>i\<in>set js. next_run (objs ?w1 i) \<noteq> None" using Cons.prems by simp
  have c: "clock (environ ?w1) k = clock (environ w) (Suc k)" for k by (simp add: now_shift)
  have e: "?w1\<lparr>environ := (environ ?w1)\<lparr>clock := \<lambda>k. clock (environ ?w1) (k + length js)\<rparr>\<rparr>
      = w\<lparr>environ := (environ w)\<lparr>clock := \<lambda>k. clock (environ w) (k + length (i # js))\<rparr>\<rparr>"
    by (simp add: now_shift)
  have en: "enumerate (Suc 0) js = map (\<lambda>(k, x). (Suc k, x)) (enumerate 0 js)"
    by (simp add: enumerate_Suc_eq apfst_def map_prod_def case_prod_beta)
  have f: "map (\<lambda>(k, i). (the (next_run (objs w i)), i))
            (filter (\<lambda>(k, i). the (next_run (objs w i)) \<le> clock (environ w) k)
               (enumerate (Suc 0) js))
         = map (\<lambda>(k, i). (the (next_run (objs ?w1 i)), i))
            (filter (\<lambda>(k, i). the (next_run (objs ?w1 i)) \<le> clock (environ ?w1) k)
               (enumerate 0 js))"
    unfolding en by (simp add: filter_map o_def split_def now_shift)
  let ?ds1 = "map (\<lambda>(k, i). (the (next_run (objs ?w1 i)), i))
            (filter (\<lambda>(k, i). the (next_run (objs ?w1 i)) \<le> clock (environ ?w1) k)
               (enumerate 0 js))"
  let ?w2 = "w\<lparr>environ := (environ w)\<lparr>clock := \<lambda>k. clock (environ w) (k + length (i # js))\<rparr>\<rparr>"
  have ih: "runnable_jobs js ?w1 = (Inr ?ds1, ?w2)"
    using Cons.IH[OF p] unfolding e .
  have l: "runnable_jobs (i # js) w =
      (Inr ((if n \<le> clock (environ w) 0 then [(n, i)] else []) @ ?ds1), ?w2)"
    by (simp add: should_run_set[OF n] ih n)
  have r: "map (\<lambda>(k, i). (the (next_run (objs w i)), i))
            (filter (\<lambda>(k, i). the (next_run (objs w i)) \<le> clock (environ w) k)
               (enumerate 0 (i # js)))
         = (if n \<le> clock (environ w) 0 then [(n, i)] else []) @ ?ds1"
    unfolding f[symmetric] by (simp add: n)
  show ?case unfolding l r ..
qed

text \<open>The tick on the jobs to dispatch.\<close>

lemma dispatch_order_due:
  "dispatch_order
     (map (\<lambda>(k, i). (the (next_run (objs w i)), i))
        (filter (\<lambda>(k, i). the (next_run (objs w i)) \<le> clock (environ w) k)
           (enumerate 0 (jobs w)))) = due_spec w"
  by (simp add: dispatch_order_def due_spec_def)

lemma run_pending_eq:
  assumes "\<forall>i\<in>set (jobs w). next_run (objs w i) \<noteq> None"
  shows "run_pending w =
    (case run_jobs (due_spec w)
            (w\<lparr>environ := (environ w)\<lparr>clock := \<lambda>k. clock (environ w) (k + length (jobs w))\<rparr>\<rparr>) of
       (Some err, w2) \<Rightarrow> (Some err, w2)
     | (None, w2) \<Rightarrow>
         (None, w2\<lparr>tasks := map (\<lambda>tk. tk\<lparr>task_done := True\<rparr>)
                               (filter (\<lambda>tk. \<not> task_done tk) (tasks w2))\<rparr>))"
  unfolding run_pending_def runnable_jobs_eq[OF assms]
  by (simp add: dispatch_order_due gather_def Let_def split: prod.splits option.splits)

text \<open>The jobs to dispatch are in ascending order, those of equal \<^verbatim>\<open>next_run\<close> as in the list.\<close>

lemma due_spec_sorted: "sorted (map (\<lambda>i. the (next_run (objs w i))) (due_spec w))"
proof -
  let ?ds = "map (\<lambda>(k, i). (the (next_run (objs w i)), i))
        (filter (\<lambda>(k, i). the (next_run (objs w i)) \<le> clock (environ w) k)
           (enumerate 0 (jobs w)))"
  have "\<forall>x\<in>set (sort_key fst ?ds). the (next_run (objs w (snd x))) = fst x" by auto
  then have "map (\<lambda>i. the (next_run (objs w i))) (map snd (sort_key fst ?ds))
      = map fst (sort_key fst ?ds)"
    by (simp add: o_def)
  then show ?thesis unfolding due_spec_def by (simp only: sorted_sort_key)
qed

lemma due_spec_stable:
  "filter (\<lambda>i. the (next_run (objs w i)) = n) (due_spec w) =
   filter (\<lambda>i. the (next_run (objs w i)) = n)
     (map snd (filter (\<lambda>(k, i). the (next_run (objs w i)) \<le> clock (environ w) k)
                 (enumerate 0 (jobs w))))"
proof -
  let ?due = "filter (\<lambda>(k, i). the (next_run (objs w i)) \<le> clock (environ w) k)
                 (enumerate 0 (jobs w))"
  let ?ds = "map (\<lambda>(k, i). (the (next_run (objs w i)), i)) ?due"
  have k: "\<forall>x\<in>set (sort_key fst ?ds). (the (next_run (objs w (snd x))) = n) = (fst x = n)"
    by auto
  have "filter (\<lambda>i. the (next_run (objs w i)) = n) (map snd (sort_key fst ?ds))
      = map snd (filter (\<lambda>x. the (next_run (objs w (snd x))) = n) (sort_key fst ?ds))"
    by (simp add: filter_map o_def)
  also have "\<dots> = map snd (filter (\<lambda>x. fst x = n) (sort_key fst ?ds))"
  proof -
    have "filter (\<lambda>x. the (next_run (objs w (snd x))) = n) (sort_key fst ?ds)
        = filter (\<lambda>x. fst x = n) (sort_key fst ?ds)"
      by (rule filter_cong[OF refl]) (use k in blast)
    then show ?thesis by (rule arg_cong)
  qed
  also have "\<dots> = map snd (filter (\<lambda>x. fst x = n) ?ds)"
    by (simp only: sort_key_stable)
  also have "\<dots> = filter (\<lambda>i. the (next_run (objs w i)) = n) (map snd ?due)"
    by (simp add: filter_map o_def split_def)
  finally show ?thesis unfolding due_spec_def .
qed

lemma due_spec_subset: "set (due_spec w) \<subseteq> set (jobs w)"
proof -
  have "set (due_spec w) \<subseteq> snd ` set (enumerate 0 (jobs w))"
    unfolding due_spec_def by force
  also have "\<dots> = set (map snd (enumerate 0 (jobs w)))" by (simp only: set_map)
  also have "\<dots> = set (jobs w)" by (simp only: map_snd_enumerate)
  finally show ?thesis .
qed

text \<open>Dispatching a job without deadline, when nothing is raised, creates its task and keeps the jobs.\<close>

lemma run_job_plain:
  assumes pl: "plain_job w i" and r: "run_job i w = (None, w1)"
  shows "tasks w1 = tasks w @ [created_task w i] \<and> jobs w1 = jobs w \<and>
         globals w1 = globals w \<and>
         (\<exists>lr p n. objs w1 = (objs w)(i := (objs w i)\<lparr>last_run := lr, period := p,
                                                      next_run := n\<rparr>))"
proof -
  obtain nm f a k where h: "job_func_name (objs w i) = Some nm" "globals w nm = Some f"
      "args (objs w i) = Some a" "kwargs (objs w i) = Some k" "has_scheduler (objs w i)"
      "cancel_after (objs w i) = None"
    using pl by (auto simp: plain_job_def)
  have ct: "created_task w i = \<lparr>task_name = nm, task_result = f a k, task_done = False\<rparr>"
    by (simp add: created_task_def h)
  let ?j2 = "(objs w i)\<lparr>last_run := Some (clock (environ w) 1)\<rparr>"
  obtain x j3 e3 where s:
    "schedule_next_run ?j2 (snd (now (snd (now (environ w))))) = (x, j3, e3)"
    by (metis prod_cases3)
  have nd: "\<not> is_overdue (objs w i) (clock (environ w) 0)" by (simp add: is_overdue_def h)
  have fr: "reschedules ?j2 j3"
    using schedule_next_run_frame[of ?j2 "snd (now (snd (now (environ w))))"] s by simp
  then obtain p n where j3: "j3 = ?j2\<lparr>period := p, next_run := n\<rparr>"
    by (auto simp: reschedules_def)
  have ca: "cancel_after j3 = None" by (simp add: j3 h)
  note R = run_dispatch[OF h(1) h(2) h(3) h(4) h(5) nd s]
  have x: "x = None"
  proof (cases x)
    case None
    then show ?thesis .
  next
    case (Some err)
    then have "fst (run_job i w) = Some err" by (simp add: run_job_def R)
    then show ?thesis using r by simp
  qed
  have rr: "run i w = (Inr (RetTask (created_task w i)),
      w\<lparr>tasks := tasks w @ [created_task w i], objs := (objs w)(i := j3), environ := e3\<rparr>)"
    unfolding R ct by (simp add: x ca is_overdue_def split: option.splits)
  have "run_job i w = (None,
      w\<lparr>tasks := tasks w @ [created_task w i], objs := (objs w)(i := j3), environ := e3\<rparr>)"
    by (simp add: run_job_def rr is_cancel_def)
  then have w1: "w1 =
      w\<lparr>tasks := tasks w @ [created_task w i], objs := (objs w)(i := j3), environ := e3\<rparr>"
    using r by simp
  have o: "objs w1 = (objs w)(i := (objs w i)\<lparr>last_run := Some (clock (environ w) 1),
      period := p, next_run := n\<rparr>)"
    by (simp add: w1 j3)
  have t: "tasks w1 = tasks w @ [created_task w i]" "jobs w1 = jobs w" "globals w1 = globals w"
    by (simp_all add: w1)
  show ?thesis using t o by blast
qed

lemma plain_job_frame:
  assumes "globals w1 = globals w"
    and "objs w1 = (objs w)(i := (objs w i)\<lparr>last_run := lr, period := p, next_run := n\<rparr>)"
  shows "plain_job w1 i' = plain_job w i'" "created_task w1 i' = created_task w i'"
  using assms by (simp_all add: plain_job_def created_task_def)

lemma run_jobs_plain:
  assumes "\<forall>i\<in>set js. plain_job w i" and "run_jobs js w = (None, w')"
  shows "tasks w' = tasks w @ map (created_task w) js \<and> jobs w' = jobs w"
  using assms
proof (induction js arbitrary: w)
  case Nil
  then show ?case by simp
next
  case (Cons i js)
  obtain x w1 where r: "run_job i w = (x, w1)" by (cases "run_job i w")
  have x: "x = None" using Cons.prems(2) r by (cases x) simp_all
  then have rest: "run_jobs js w1 = (None, w')" using Cons.prems(2) r by simp
  have pl: "plain_job w i" using Cons.prems(1) by simp
  from run_job_plain[OF pl r[unfolded x]] obtain lr p n where
    t: "tasks w1 = tasks w @ [created_task w i]" and j: "jobs w1 = jobs w"
    and g: "globals w1 = globals w"
    and o: "objs w1 = (objs w)(i := (objs w i)\<lparr>last_run := lr, period := p, next_run := n\<rparr>)"
    by blast
  have pls: "\<forall>i'\<in>set js. plain_job w1 i'"
    using Cons.prems(1) plain_job_frame(1)[OF g o] by simp
  have cts: "map (created_task w1) js = map (created_task w) js"
    using plain_job_frame(2)[OF g o] by simp
  from Cons.IH[OF pls rest] show ?case by (simp add: t j cts)
qed

text \<open>A job in seconds without deadline is dispatched without exception, inside Python's ranges.\<close>

lemma run_job_seconds:
  assumes pl: "plain_job w i"
    and u: "unit (objs w i) = Some ''seconds''" "latest (objs w i) = None"
      "start_day (objs w i) = None" "at_time (objs w i) = None"
    and r: "- 999999999 * DAY \<le> interval (objs w i) * SECOND"
      "interval (objs w i) * SECOND < 1000000000 * DAY"
    and ir: "in_range (clock (environ w) 1 + interval (objs w i) * SECOND)"
  shows "run_job i w =
    (None, w\<lparr>tasks := tasks w @ [created_task w i],
              objs := (objs w)(i := (objs w i)\<lparr>last_run := Some (clock (environ w) 1),
                 period := Some (interval (objs w i) * SECOND),
                 next_run := Some (clock (environ w) 1 + interval (objs w i) * SECOND)\<rparr>),
              environ := snd (now (snd (now (environ w))))\<rparr>)"
proof -
  obtain nm f a k where h: "job_func_name (objs w i) = Some nm" "globals w nm = Some f"
      "args (objs w i) = Some a" "kwargs (objs w i) = Some k" "has_scheduler (objs w i)"
      "cancel_after (objs w i) = None"
    using pl by (auto simp: plain_job_def)
  have ct: "created_task w i = \<lparr>task_name = nm, task_result = f a k, task_done = False\<rparr>"
    by (simp add: created_task_def h)
  let ?j2 = "(objs w i)\<lparr>last_run := Some (clock (environ w) 1)\<rparr>"
  let ?j3 = "?j2\<lparr>period := Some (interval ?j2 * SECOND),
               next_run := Some (clock (environ w) 1 + interval ?j2 * SECOND)\<rparr>"
  have s: "schedule_next_run ?j2 (snd (now (snd (now (environ w))))) =
      (None, ?j3, snd (now (snd (now (environ w)))))"
    using u r ir by (intro seconds_job_next_run) simp_all
  have nd: "\<not> is_overdue (objs w i) (clock (environ w) 0)" by (simp add: is_overdue_def h)
  note R = run_dispatch[OF h(1) h(2) h(3) h(4) h(5) nd s]
  have rr: "run i w = (Inr (RetTask (created_task w i)),
      w\<lparr>tasks := tasks w @ [created_task w i], objs := (objs w)(i := ?j3),
        environ := snd (now (snd (now (environ w))))\<rparr>)"
    unfolding R ct by (simp add: h is_overdue_def)
  show ?thesis by (simp add: run_job_def rr is_cancel_def)
qed

text \<open>
  C5. The jobs that \<open>due_spec\<close> lists are in ascending order of \<^verbatim>\<open>next_run\<close> and are, for
  each value of \<^verbatim>\<open>next_run\<close>, the registered jobs not after their reading of the clock, in
  list order. When every registered job has a \<^verbatim>\<open>next_run\<close>, a tick reads the clock once
  per registered job, runs \<^verbatim>\<open>_run_job\<close> on these jobs in this order, an exception ending
  the tick, then drops the tasks that are done and completes the others. So a tick
  that returns leaves only tasks that are done; and when no job has a deadline and
  the functions and arguments are there, the tasks it leaves are the unfinished ones
  from before followed by one new task per dispatched job, in the order of
  dispatch, all done, and the jobs are as before.
\<close>

theorem tick_dispatches_due_jobs:
  "sorted (map (\<lambda>i. the (next_run (objs w i))) (due_spec w)) \<and>
   filter (\<lambda>i. the (next_run (objs w i)) = n) (due_spec w) =
     filter (\<lambda>i. the (next_run (objs w i)) = n)
       (map snd (filter (\<lambda>(k, i). the (next_run (objs w i)) \<le> clock (environ w) k)
                   (enumerate 0 (jobs w)))) \<and>
   ((\<forall>i\<in>set (jobs w). next_run (objs w i) \<noteq> None) \<longrightarrow>
      run_pending w =
        (case run_jobs (due_spec w)
                (w\<lparr>environ := (environ w)\<lparr>clock :=
                      \<lambda>k. clock (environ w) (k + length (jobs w))\<rparr>\<rparr>) of
           (Some err, w2) \<Rightarrow> (Some err, w2)
         | (None, w2) \<Rightarrow>
             (None, w2\<lparr>tasks := map (\<lambda>tk. tk\<lparr>task_done := True\<rparr>)
                                   (filter (\<lambda>tk. \<not> task_done tk) (tasks w2))\<rparr>)) \<and>
      (fst (run_pending w) = None \<longrightarrow>
         (\<forall>tk\<in>set (tasks (snd (run_pending w))). task_done tk)) \<and>
      ((\<forall>i\<in>set (jobs w). plain_job w i) \<and> fst (run_pending w) = None \<longrightarrow>
         tasks (snd (run_pending w)) =
           map (\<lambda>tk. tk\<lparr>task_done := True\<rparr>)
             (filter (\<lambda>tk. \<not> task_done tk) (tasks w) @ map (created_task w) (due_spec w)) \<and>
         jobs (snd (run_pending w)) = jobs w))"
proof (intro conjI impI)
  show "sorted (map (\<lambda>i. the (next_run (objs w i))) (due_spec w))" by (rule due_spec_sorted)
  show "filter (\<lambda>i. the (next_run (objs w i)) = n) (due_spec w) =
     filter (\<lambda>i. the (next_run (objs w i)) = n)
       (map snd (filter (\<lambda>(k, i). the (next_run (objs w i)) \<le> clock (environ w) k)
                   (enumerate 0 (jobs w))))"
    by (rule due_spec_stable)
next
  assume a: "\<forall>i\<in>set (jobs w). next_run (objs w i) \<noteq> None"
  let ?w1 = "w\<lparr>environ := (environ w)\<lparr>clock := \<lambda>k. clock (environ w) (k + length (jobs w))\<rparr>\<rparr>"
  note E = run_pending_eq[OF a]
  show "run_pending w =
        (case run_jobs (due_spec w) ?w1 of
           (Some err, w2) \<Rightarrow> (Some err, w2)
         | (None, w2) \<Rightarrow>
             (None, w2\<lparr>tasks := map (\<lambda>tk. tk\<lparr>task_done := True\<rparr>)
                                   (filter (\<lambda>tk. \<not> task_done tk) (tasks w2))\<rparr>))"
    by (rule E)
  {
    assume n: "fst (run_pending w) = None"
    obtain x w2 where r: "run_jobs (due_spec w) ?w1 = (x, w2)"
      by (cases "run_jobs (due_spec w) ?w1")
    have x: "x = None" using n unfolding E r by (cases x) simp_all
    have "tasks (snd (run_pending w)) = map (\<lambda>tk. tk\<lparr>task_done := True\<rparr>)
                                   (filter (\<lambda>tk. \<not> task_done tk) (tasks w2))"
      unfolding E r x by simp
    then show "\<forall>tk\<in>set (tasks (snd (run_pending w))). task_done tk" by simp
  }
  {
    assume h: "(\<forall>i\<in>set (jobs w). plain_job w i) \<and> fst (run_pending w) = None"
    obtain x w2 where r: "run_jobs (due_spec w) ?w1 = (x, w2)"
      by (cases "run_jobs (due_spec w) ?w1")
    have x: "x = None" using h unfolding E r by (cases x) simp_all
    have pl: "\<forall>i\<in>set (due_spec w). plain_job ?w1 i"
      using h due_spec_subset[of w] by (auto simp: plain_job_def)
    have ct: "created_task ?w1 = created_task w" by (rule ext) (simp add: created_task_def)
    from run_jobs_plain[OF pl r[unfolded x]]
    have t: "tasks w2 = tasks w @ map (created_task w) (due_spec w)" and j: "jobs w2 = jobs w"
      unfolding ct by simp_all
    have nd: "filter (\<lambda>tk. \<not> task_done tk) (map (created_task w) (due_spec w))
        = map (created_task w) (due_spec w)"
      by (simp add: filter_map o_def created_task_def)
    show "tasks (snd (run_pending w)) =
           map (\<lambda>tk. tk\<lparr>task_done := True\<rparr>)
             (filter (\<lambda>tk. \<not> task_done tk) (tasks w) @ map (created_task w) (due_spec w))"
      unfolding E r x by (simp add: t nd)
    show "jobs (snd (run_pending w)) = jobs w" unfolding E r x by (simp add: j)
  }
qed

text \<open>The example world, spelled out.\<close>

lemma world_tick_facts:
  "objs world_tick 0 = echo_job 0 (8 * SECOND)" "objs world_tick 1 = echo_job 1 (5 * SECOND)"
  "objs world_tick (Suc 0) = echo_job 1 (5 * SECOND)"
  "objs world_tick 2 = echo_job 2 (50 * SECOND)"
  "jobs world_tick = [0, 1, 2]" "globals world_tick = echo_globals"
  "environ world_tick = env_at (9 * SECOND)"
  "tasks world_tick = [\<lparr>task_name = ''old'', task_result = NoneValue, task_done = True\<rparr>,
               \<lparr>task_name = ''slow'', task_result = NoneValue, task_done = False\<rparr>]"
  by (simp_all add: world_tick_def)

lemma echo_job_facts:
  "unit (echo_job v n) = Some ''seconds''" "latest (echo_job v n) = None"
  "start_day (echo_job v n) = None" "at_time (echo_job v n) = None"
  "interval (echo_job v n) = 10" "next_run (echo_job v n) = Some n"
  "cancel_after (echo_job v n) = None" "job_func_name (echo_job v n) = Some ''echo''"
  "args (echo_job v n) = Some [IntValue v]" "kwargs (echo_job v n) = Some []"
  "has_scheduler (echo_job v n)"
  by (simp_all add: echo_job_def seconds_def Job_def)

text \<open>
  At 9 s the jobs due at 8 s and at 5 s are dispatched, the one due at 5 s first, and
  the job due at 50 s is not; the finished task is dropped, the unfinished one and the
  two new ones are done when the tick returns.
\<close>

theorem tick_dispatches_due_jobs_witness:
  "due_spec world_tick = [1, 0] \<and>
   fst (run_pending world_tick) = None \<and>
   tasks (snd (run_pending world_tick)) =
     [\<lparr>task_name = ''slow'', task_result = NoneValue, task_done = True\<rparr>,
      \<lparr>task_name = ''echo'', task_result = IntValue 1, task_done = True\<rparr>,
      \<lparr>task_name = ''echo'', task_result = IntValue 0, task_done = True\<rparr>] \<and>
   jobs (snd (run_pending world_tick)) = [0, 1, 2]"
proof -
  have ds: "due_spec world_tick = [1, 0]"
    by (simp add: due_spec_def world_tick_facts echo_job_facts env_at_def sort_key_def
          SECOND_def)
  have h1: "\<forall>i\<in>set (jobs world_tick). next_run (objs world_tick i) \<noteq> None"
    by (simp add: world_tick_facts echo_job_facts)
  have h2: "\<forall>i\<in>set (jobs world_tick). plain_job world_tick i"
    by (simp add: world_tick_facts echo_job_facts plain_job_def echo_globals_def)
  let ?W1 = "world_tick\<lparr>environ := (environ world_tick)\<lparr>clock :=
      \<lambda>k. clock (environ world_tick) (k + length (jobs world_tick))\<rparr>\<rparr>"
  let ?W2 = "?W1\<lparr>tasks := tasks ?W1 @ [created_task ?W1 1],
      objs := (objs ?W1)(1 := (objs ?W1 1)\<lparr>last_run := Some (clock (environ ?W1) 1),
                 period := Some (interval (objs ?W1 1) * SECOND),
                 next_run := Some (clock (environ ?W1) 1 + interval (objs ?W1 1) * SECOND)\<rparr>),
      environ := snd (now (snd (now (environ ?W1))))\<rparr>"
  have r1: "run_job 1 ?W1 = (None, ?W2)"
    by (intro run_job_seconds)
      (simp_all add: world_tick_facts echo_job_facts plain_job_def echo_globals_def env_at_def
         in_range_def DATETIME_MIN_def DATETIME_MAX_def SECOND_def DAY_def)
  have p: "plain_job ?W2 0" "unit (objs ?W2 0) = Some ''seconds''"
    "latest (objs ?W2 0) = None" "start_day (objs ?W2 0) = None" "at_time (objs ?W2 0) = None"
    "- 999999999 * DAY \<le> interval (objs ?W2 0) * SECOND"
    "interval (objs ?W2 0) * SECOND < 1000000000 * DAY"
    "in_range (clock (environ ?W2) 1 + interval (objs ?W2 0) * SECOND)"
    by (simp_all add: world_tick_facts echo_job_facts plain_job_def echo_globals_def env_at_def
         now_def in_range_def DATETIME_MIN_def DATETIME_MAX_def SECOND_def DAY_def)
  note r2 = run_job_seconds[OF p]
  have "fst (run_jobs [1, 0] ?W1) = None"
    by (simp only: run_jobs.simps r1 r2 prod.case option.case fst_conv)
  then obtain W3 where rj: "run_jobs [1, 0] ?W1 = (None, W3)"
    by (cases "run_jobs [1, 0] ?W1") simp
  have h3: "fst (run_pending world_tick) = None"
    unfolding run_pending_eq[OF h1] ds rj by simp
  have h23: "(\<forall>i\<in>set (jobs world_tick). plain_job world_tick i) \<and>
      fst (run_pending world_tick) = None"
    using h2 h3 by blast
  note T = tick_dispatches_due_jobs[where w = world_tick and n = 0,
      THEN conjunct2, THEN conjunct2, THEN mp, OF h1, THEN conjunct2, THEN conjunct2,
      THEN mp, OF h23]
  have t: "tasks (snd (run_pending world_tick)) =
     [\<lparr>task_name = ''slow'', task_result = NoneValue, task_done = True\<rparr>,
      \<lparr>task_name = ''echo'', task_result = IntValue 1, task_done = True\<rparr>,
      \<lparr>task_name = ''echo'', task_result = IntValue 0, task_done = True\<rparr>]"
    unfolding T[THEN conjunct1] ds
    by (simp add: world_tick_facts created_task_def echo_job_facts echo_globals_def)
  have j: "jobs (snd (run_pending world_tick)) = [0, 1, 2]"
    unfolding T[THEN conjunct2] by (simp add: world_tick_facts)
  show ?thesis using ds h3 t j by blast
qed

section \<open>Properties of serialization\<close>

subsection \<open>What a successful computation leaves\<close>
















end
